theory Spec2Isabelle
  imports Complex_Main "HOL-Library.Multiset"
begin

section \<open>Data model\<close>

text \<open>
  The scalar types \<^verbatim>\<open>Real\<close> and \<^verbatim>\<open>ParticleReal\<close> of the source are modelled by
  exact real numbers: every result below is about the formulas and the control flow of the
  code, not about rounding. The \<^verbatim>\<open>int\<close> attributes of an agent are only ever compared,
  never computed with, so they are modelled by unbounded integers.

  Device pointers carry no length. An array that the code reaches through a raw pointer
  (\<^verbatim>\<open>a_ptd.m_idata[...]\<close>, \<^verbatim>\<open>a_prob_ptr\<close>, the coefficient tables of \<^verbatim>\<open>DiseaseParm\<close>) is
  a total function from the index to the value.
\<close>

text \<open>
  Modelled from the spec: the declaration of \<^verbatim>\<open>DiseaseParm\<close> is not part of the two source
  files; the fields are the ones the kernels read (\<^verbatim>\<open>infect\<close>, \<^verbatim>\<open>vac_eff\<close>,
  \<^verbatim>\<open>xmit_work\<close>, \<^verbatim>\<open>xmit_comm\<close>, \<^verbatim>\<open>xmit_comm_SC\<close>, \<^verbatim>\<open>xmit_hood\<close>, \<^verbatim>\<open>xmit_hood_SC\<close>), the
  tables indexed by the age group, and the incubation length of the spec's data model.
\<close>

record DiseaseParm =
  infect :: real
  vac_eff :: real
  xmit_work :: real
  xmit_comm :: "int \<Rightarrow> real"
  xmit_comm_SC :: "int \<Rightarrow> real"
  xmit_hood :: "int \<Rightarrow> real"
  xmit_hood_SC :: "int \<Rightarrow> real"
  incubation_length :: real

text \<open>
  Modelled from the spec: the status of an agent for one disease (the enumeration
  \<^verbatim>\<open>Status\<close> is declared in \<^verbatim>\<open>AgentDefinitions.H\<close>, which is not among the source files).
\<close>

datatype Status = Susceptible | Infected | Immune | Dead

text \<open>
  The structure-of-arrays view of the agents of one patch. The integer attributes are the
  ones the kernels read through \<^verbatim>\<open>a_ptd.m_idata[IntIdx::...]\<close>; the per-disease status and
  counter (first index: the disease, second: the agent) are the ones the eligibility
  predicates of the spec read.
\<close>

record ParticleTileData =
  work_i :: "nat \<Rightarrow> int"
  workgroup :: "nat \<Rightarrow> int"
  withdrawn :: "nat \<Rightarrow> int"
  age_group :: "nat \<Rightarrow> int"
  nborhood :: "nat \<Rightarrow> int"
  school :: "nat \<Rightarrow> int"
  status :: "nat \<Rightarrow> nat \<Rightarrow> Status"
  disease_counter :: "nat \<Rightarrow> nat \<Rightarrow> real"

text \<open>
  The mutable store: one probability accumulator per disease and agent (\<open>prob m d\<close> is
  the array behind \<^verbatim>\<open>getAgentProbPtr(a_agents,lev,mfi,d)\<close>), and the sequence of the
  observable events of a run: the kernel invocations and the atomic multiplications, in
  the order in which they happen. The pointer \<^verbatim>\<open>a_prob_ptr\<close> of a kernel is the disease
  index of the array it points to.
\<close>

datatype event =
    KernelCall nat nat nat
  | AtomicMultiply nat nat real

record mem =
  prob :: "nat \<Rightarrow> nat \<Rightarrow> real"
  trace :: "event list"

section \<open>The pairwise transmission kernels\<close>

text \<open>\<^verbatim>\<open>Gpu::Atomic::Multiply(&a_prob_ptr[a_j], prob)\<close>: one indivisible read-modify-write.\<close>

definition atomic_multiply :: "nat \<Rightarrow> nat \<Rightarrow> real \<Rightarrow> mem \<Rightarrow> mem" where
  "atomic_multiply a_prob_ptr a_j v m =
     m\<lparr>prob := (prob m)(a_prob_ptr := (prob m a_prob_ptr)(a_j := prob m a_prob_ptr a_j * v)),
       trace := trace m @ [AtomicMultiply a_prob_ptr a_j v]\<rparr>"

text \<open>
  \<^verbatim>\<open>binaryInteractionWork\<close> (InteractionModWork.H): \<open>a_i\<close> is the infectious agent,
  \<open>a_j\<close> the susceptible one. A C++ integer used as a condition is true when it is not 0.
\<close>

definition binaryInteractionWork ::
  "nat \<Rightarrow> nat \<Rightarrow> ParticleTileData \<Rightarrow> DiseaseParm \<Rightarrow> real \<Rightarrow> nat \<Rightarrow> mem \<Rightarrow> mem" where
  "binaryInteractionWork a_i a_j a_ptd a_lparm a_work_scale a_prob_ptr m =
     (let infect0 = infect a_lparm * vac_eff a_lparm in
      if withdrawn a_ptd a_i \<noteq> 0 \<or> withdrawn a_ptd a_j \<noteq> 0 then m
      else
        let prob0 =
          (if workgroup a_ptd a_i \<noteq> 0 \<and> work_i a_ptd a_i \<ge> 0 then
             (if work_i a_ptd a_j \<ge> 0 \<and> workgroup a_ptd a_i = workgroup a_ptd a_j
              then 1 * (1 - infect0 * xmit_work a_lparm * a_work_scale)
              else 1)
           else 1)
        in atomic_multiply a_prob_ptr a_j prob0 m)"

text \<open>
  \<^verbatim>\<open>binaryInteractionNborhood\<close> (InteractionModNborhood.H): the community factor, then
  the neighbourhood factor when the two agents have the same neighbourhood, composed in the
  local variable \<^verbatim>\<open>prob\<close> and committed by one atomic multiplication.
\<close>

definition binaryInteractionNborhood ::
  "nat \<Rightarrow> nat \<Rightarrow> ParticleTileData \<Rightarrow> DiseaseParm \<Rightarrow> real \<Rightarrow> nat \<Rightarrow> mem \<Rightarrow> mem" where
  "binaryInteractionNborhood a_i a_j a_ptd a_lparm a_social_scale a_prob_ptr m =
     (let infect0 = infect a_lparm * vac_eff a_lparm in
      if withdrawn a_ptd a_i \<noteq> 0 \<or> withdrawn a_ptd a_j \<noteq> 0 then m
      else
        let prob0 =
              (if school a_ptd a_i < 0
               then 1 * (1 - infect0 * xmit_comm_SC a_lparm (age_group a_ptd a_j) * a_social_scale)
               else 1 * (1 - infect0 * xmit_comm a_lparm (age_group a_ptd a_j) * a_social_scale));
            prob1 =
              (if nborhood a_ptd a_i = nborhood a_ptd a_j then
                 (if school a_ptd a_i < 0
                  then prob0 * (1 - infect0 * xmit_hood_SC a_lparm (age_group a_ptd a_j) * a_social_scale)
                  else prob0 * (1 - infect0 * xmit_hood a_lparm (age_group a_ptd a_j) * a_social_scale))
               else prob0)
        in atomic_multiply a_prob_ptr a_j prob1 m)"

section \<open>The eligibility predicates\<close>

text \<open>
  Modelled from the spec: \<^verbatim>\<open>notSusceptible\<close> and \<^verbatim>\<open>isInfectious\<close> are defined in
  \<^verbatim>\<open>AgentDefinitions.H\<close>, which is not among the source files. The spec: an agent is not
  susceptible when its status is Immune, or Infected with a disease counter below the
  incubation length of the disease; it is infectious only when its status is Infected and the
  counter has reached the incubation length. The source passes the agent, the tile data and
  the disease index; the incubation length, which the spec places in the disease parameters,
  is passed along with them.
\<close>

definition notSusceptible :: "nat \<Rightarrow> ParticleTileData \<Rightarrow> DiseaseParm \<Rightarrow> nat \<Rightarrow> bool" where
  "notSusceptible a_idx a_ptd a_lparm a_d =
     (status a_ptd a_d a_idx = Immune
      \<or> (status a_ptd a_d a_idx = Infected
          \<and> disease_counter a_ptd a_d a_idx < incubation_length a_lparm))"

definition isInfectious :: "nat \<Rightarrow> ParticleTileData \<Rightarrow> DiseaseParm \<Rightarrow> nat \<Rightarrow> bool" where
  "isInfectious a_idx a_ptd a_lparm a_d =
     (status a_ptd a_d a_idx = Infected
      \<and> disease_counter a_ptd a_d a_idx \<ge> incubation_length a_lparm)"

section \<open>The spatial bin index\<close>

text \<open>
  A failed \<^verbatim>\<open>AMREX_ALWAYS_ASSERT\<close> aborts the run. An access outside an array whose length
  is known (the permutation, the offsets and the particle structs of a tile) is undefined
  in the source; the model stops there with an error of its own.
\<close>

datatype error = AssertFailed | OutOfBounds

record DenseBins =
  numItems :: nat
  numBins :: int
  permutation :: "nat list"
  offsets :: "nat list"

text \<open>
  Modelled from the spec: \<^verbatim>\<open>makeBins\<close> (\<^verbatim>\<open>InteractionModel.H\<close>) and the \<^verbatim>\<open>DenseBins\<close> it
  builds are not among the source files. The spec describes a counting sort on the flat cell
  ids of the agents: count the agents of each cell, take the prefix sums of the counts as
  the offsets (one more than there are cells), and scatter the agent indices into the
  permutation with one running counter per cell, which starts at the offset of the cell.
\<close>

fun count_pass :: "nat list \<Rightarrow> nat list \<Rightarrow> nat list" where
  "count_pass [] counts = counts"
| "count_pass (c # cells) counts = count_pass cells (counts[c := counts ! c + 1])"

fun prefix_sum :: "nat \<Rightarrow> nat list \<Rightarrow> nat list" where
  "prefix_sum s [] = [s]"
| "prefix_sum s (n # counts) = s # prefix_sum (s + n) counts"

fun scatter_pass :: "nat \<Rightarrow> nat list \<Rightarrow> nat list \<Rightarrow> nat list \<Rightarrow> nat list" where
  "scatter_pass i [] counters perm = perm"
| "scatter_pass i (c # cells) counters perm =
     scatter_pass (i + 1) cells (counters[c := counters ! c + 1]) (perm[counters ! c := i])"

text \<open>
  \<open>build nbins binner pstruct\<close>: the index of the agents \<open>pstruct\<close> of a patch with
  \<open>nbins\<close> cells, where \<open>binner\<close> maps an agent to its flat cell id. A cell id outside
  the patch is an index out of the declared bounds.
\<close>

definition build :: "nat \<Rightarrow> ('p \<Rightarrow> nat) \<Rightarrow> 'p list \<Rightarrow> error + DenseBins" where
  "build nbins binner pstruct =
     (let cells = map binner pstruct in
      if list_all (\<lambda>c. c < nbins) cells then
        let counts = count_pass cells (replicate nbins 0);
            offs = prefix_sum 0 counts;
            perm = scatter_pass 0 cells offs (replicate (length pstruct) 0)
        in Inr \<lparr>numItems = length pstruct, numBins = int nbins,
                 permutation = perm, offsets = offs\<rparr>
      else Inl OutOfBounds)"

text \<open>
  Two notions for the proofs about the index. \<open>cell_offsets\<close> is the offsets array that
  \<open>build\<close> computes. \<open>slot nbins cells k\<close> is the place of agent \<open>k\<close> in the permutation:
  the offset of its cell plus the number of earlier agents of the same cell.
\<close>

definition cell_offsets :: "nat \<Rightarrow> nat list \<Rightarrow> nat list" where
  "cell_offsets nbins cells = prefix_sum 0 (count_pass cells (replicate nbins 0))"

definition slot :: "nat \<Rightarrow> nat list \<Rightarrow> nat \<Rightarrow> nat" where
  "slot nbins cells k =
     cell_offsets nbins cells ! (cells ! k) + count_list (take k cells) (cells ! k)"

section \<open>The interaction pass\<close>

text \<open>
  What \<^verbatim>\<open>interactAgents\<close> reads of the agent container for one patch (one \<^verbatim>\<open>MFIter\<close>
  tile of one level): the particle structs (\<^verbatim>\<open>aos\<close>, with \<^verbatim>\<open>np\<close> their number), the tile
  data, the binner \<^verbatim>\<open>GetParticleBin\<close> of the tile with the number of cells of the tile,
  the number of diseases and the parameters of each disease. The loops over the levels and
  the tiles run the same body on every patch, each with arrays of its own.
\<close>

record 'p AgentTile =
  aos :: "'p list"
  tile_data :: ParticleTileData
  particle_bin :: "'p \<Rightarrow> nat"
  num_cells :: nat
  numDiseases :: nat
  getDiseaseParameters_d :: "nat \<Rightarrow> DiseaseParm"

type_synonym kernel =
  "nat \<Rightarrow> nat \<Rightarrow> ParticleTileData \<Rightarrow> DiseaseParm \<Rightarrow> real \<Rightarrow> nat \<Rightarrow> mem \<Rightarrow> mem"

text \<open>
  A loop whose body can abort. \<^verbatim>\<open>ParallelForRNG\<close> gives no order to its iterations; the
  model runs them one after the other, in the order of the list.
\<close>

fun for_each :: "'a list \<Rightarrow> ('a \<Rightarrow> mem \<Rightarrow> error + mem) \<Rightarrow> mem \<Rightarrow> error + mem" where
  "for_each [] body m = Inr m"
| "for_each (x # xs) body m =
     (case body x m of Inl e \<Rightarrow> Inl e | Inr m' \<Rightarrow> for_each xs body m')"

text \<open>
  One iteration of the loop over \<open>jj\<close>: the candidate source \<open>j = inds[jj]\<close> for the
  target \<open>i\<close>. The scale of both contexts is the constant 1. The invocation of the kernel
  is recorded in the trace before the kernel runs.
\<close>

definition neighbor_step ::
  "kernel \<Rightarrow> 'p AgentTile \<Rightarrow> DenseBins \<Rightarrow> nat \<Rightarrow> nat \<Rightarrow> nat \<Rightarrow> mem \<Rightarrow> error + mem" where
  "neighbor_step K T bins d i jj m =
     (if \<not> jj < length (permutation bins) then Inl OutOfBounds
      else
        let j = permutation bins ! jj in
        if \<not> j < length (aos T) then Inl AssertFailed
        else if i = j then Inr m
        else if isInfectious j (tile_data T) (getDiseaseParameters_d T d) d then
          Inr (K j i (tile_data T) (getDiseaseParameters_d T d) 1 d
                 (m\<lparr>trace := trace m @ [KernelCall d j i]\<rparr>))
        else Inr m)"

text \<open>
  The body of \<^verbatim>\<open>ParallelForRNG\<close>: the unit of work of the item \<open>ii\<close> of the index, in the
  order of the source: the reads of \<^verbatim>\<open>inds[ii]\<close>, of the struct of agent \<open>i\<close> for the binner
  and of the two offsets, then the assertion \<^verbatim>\<open>i < np\<close> (\<open>np\<close> is the number of structs, so
  after the read of the struct the assertion holds), then the test of the target and the
  scan of its cell.
\<close>

definition bin_item ::
  "kernel \<Rightarrow> 'p AgentTile \<Rightarrow> DenseBins \<Rightarrow> nat \<Rightarrow> nat \<Rightarrow> mem \<Rightarrow> error + mem" where
  "bin_item K T bins d ii m =
     (if \<not> ii < length (permutation bins) then Inl OutOfBounds
      else
        let i = permutation bins ! ii in
        if \<not> i < length (aos T) then Inl OutOfBounds
        else
          let i_cell = particle_bin T (aos T ! i) in
          if \<not> i_cell + 1 < length (offsets bins) then Inl OutOfBounds
          else
            let cell_start = offsets bins ! i_cell;
                cell_stop = offsets bins ! (i_cell + 1)
            in
              if \<not> i < length (aos T) then Inl AssertFailed
              else if notSusceptible i (tile_data T) (getDiseaseParameters_d T d) d then Inr m
              else for_each [cell_start..<cell_stop] (neighbor_step K T bins d i) m)"

text \<open>
  The body of the loop over the tiles, for the index \<open>bins\<close> of the tile: the assertion
  on the number of bins, then for every disease the pass over the items of the index.
  \<^verbatim>\<open>Gpu::synchronize\<close> after the pass of a disease has nothing to do in a model that runs
  the iterations one after the other.
\<close>

definition interact_tile :: "kernel \<Rightarrow> 'p AgentTile \<Rightarrow> DenseBins \<Rightarrow> mem \<Rightarrow> error + mem" where
  "interact_tile K T bins m =
     (if \<not> numBins bins \<ge> 0 then Inl AssertFailed
      else for_each [0..<numDiseases T]
             (\<lambda>d. for_each [0..<numItems bins] (bin_item K T bins d)) m)"

text \<open>
  Modelled from the spec: \<^verbatim>\<open>makeBins\<close> makes the index of the patch current, that is, the
  index built from the present positions of the agents.
\<close>

definition makeBins :: "'p AgentTile \<Rightarrow> error + DenseBins" where
  "makeBins T = build (num_cells T) (particle_bin T) (aos T)"

text \<open>
  \<^verbatim>\<open>InteractionModWork::interactAgents\<close> and \<^verbatim>\<open>InteractionModNborhood::interactAgents\<close>
  on one patch. The two functions of the source differ in the kernel they invoke (and in
  the name under which the index is kept), and in nothing else.
\<close>

definition interactAgentsWork :: "'p AgentTile \<Rightarrow> mem \<Rightarrow> error + mem" where
  "interactAgentsWork T m =
     (case makeBins T of
        Inl e \<Rightarrow> Inl e
      | Inr bins \<Rightarrow> interact_tile binaryInteractionWork T bins m)"

definition interactAgentsNborhood :: "'p AgentTile \<Rightarrow> mem \<Rightarrow> error + mem" where
  "interactAgentsNborhood T m =
     (case makeBins T of
        Inl e \<Rightarrow> Inl e
      | Inr bins \<Rightarrow> interact_tile binaryInteractionNborhood T bins m)"

section \<open>Notions for the proofs about the pass\<close>

text \<open>
  \<open>bins_valid T bins\<close>: the index \<open>bins\<close> fits the patch \<open>T\<close>. It has one item per
  agent, every agent has a cell of the patch, the permutation stays within the agents, and
  the offset range of a cell holds agents of that cell only.
\<close>

definition bins_valid :: "'p AgentTile \<Rightarrow> DenseBins \<Rightarrow> bool" where
  "bins_valid T bins \<longleftrightarrow>
     numItems bins = length (aos T) \<and> 0 \<le> numBins bins
     \<and> length (permutation bins) = length (aos T)
     \<and> length (offsets bins) = num_cells T + 1
     \<and> (\<forall>i<length (aos T). particle_bin T (aos T ! i) < num_cells T)
     \<and> (\<forall>ii<length (aos T). permutation bins ! ii < length (aos T))
     \<and> (\<forall>c<num_cells T. \<forall>jj. offsets bins ! c \<le> jj \<and> jj < offsets bins ! (c + 1) \<longrightarrow>
           jj < length (aos T) \<and> particle_bin T (aos T ! (permutation bins ! jj)) = c)"

text \<open>
  A kernel \<open>K\<close> writes no accumulator but the one of its target, for the disease it is
  called with; and it records no kernel invocation in the trace.
\<close>

definition writes_target_only :: "kernel \<Rightarrow> bool" where
  "writes_target_only K \<longleftrightarrow>
     (\<forall>j i ptd lp s d m q k. (q, k) \<noteq> (d, i) \<longrightarrow> prob (K j i ptd lp s d m) q k = prob m q k)"

definition records_no_call :: "kernel \<Rightarrow> bool" where
  "records_no_call K \<longleftrightarrow>
     (\<forall>j i ptd lp s d m. \<exists>evs. trace (K j i ptd lp s d m) = trace m @ evs
         \<and> (\<forall>d' j' i'. KernelCall d' j' i' \<notin> set evs))"

text \<open>
  \<open>bucket_pair T bins d j i\<close>: the source \<open>j\<close> and the target \<open>i\<close> are two different
  agents of the patch, \<open>j\<close> is an entry of the permutation within the offset range of the
  cell of \<open>i\<close>, and \<open>j\<close> is infectious for the disease \<open>d\<close>.
  \<open>eligible_pair T d j i\<close>: the same with the flat cell id of \<open>j\<close> equal to that of \<open>i\<close>.
  \<open>trace_extends G tr0 m\<close>: the trace of \<open>m\<close> continues \<open>tr0\<close>, and every kernel
  invocation after \<open>tr0\<close> satisfies \<open>G\<close>.
\<close>

definition bucket_pair :: "'p AgentTile \<Rightarrow> DenseBins \<Rightarrow> nat \<Rightarrow> nat \<Rightarrow> nat \<Rightarrow> bool" where
  "bucket_pair T bins d j i \<longleftrightarrow>
     j \<noteq> i \<and> j < length (aos T) \<and> i < length (aos T)
     \<and> (\<exists>jj. offsets bins ! particle_bin T (aos T ! i) \<le> jj
            \<and> jj < offsets bins ! (particle_bin T (aos T ! i) + 1)
            \<and> jj < length (permutation bins) \<and> j = permutation bins ! jj)
     \<and> isInfectious j (tile_data T) (getDiseaseParameters_d T d) d"

definition eligible_pair :: "'p AgentTile \<Rightarrow> nat \<Rightarrow> nat \<Rightarrow> nat \<Rightarrow> bool" where
  "eligible_pair T d j i \<longleftrightarrow>
     j \<noteq> i \<and> j < length (aos T) \<and> i < length (aos T)
     \<and> particle_bin T (aos T ! j) = particle_bin T (aos T ! i)
     \<and> isInfectious j (tile_data T) (getDiseaseParameters_d T d) d"

definition trace_extends :: "(nat \<Rightarrow> nat \<Rightarrow> nat \<Rightarrow> bool) \<Rightarrow> event list \<Rightarrow> mem \<Rightarrow> bool" where
  "trace_extends G tr0 m \<longleftrightarrow>
     (\<exists>evs. trace m = tr0 @ evs \<and> (\<forall>d j i. KernelCall d j i \<in> set evs \<longrightarrow> G d j i))"





section \<open>Example data\<close>

text \<open>
  A small patch used to evaluate the definitions on concrete inputs. Agent 0 is a pupil
  attending school who works in workgroup 5; agent 1 shares workgroup and neighbourhood
  with agent 0; agent 2 is in workgroup 7 and another neighbourhood; agent 3 carries
  workgroup 5 but has no valid work location; agents 4 and 5 carry the sentinel workgroup 0;
  agent 6 is withdrawn; agent 7 is like agent 0, but does not attend school today; agent 8
  is one more member of workgroup 5. For every disease, agents 0, 6 and 7 are infectious
  (infected for 6 days, with an incubation length of 3), agent 3 is immune, agent 4 is
  infected for 1 day, and the others are susceptible.
\<close>

definition ptd_ex :: ParticleTileData where
  "ptd_ex =
     \<lparr>work_i = (\<lambda>k. [3, 3, 3, -1, 3, 3, 3, 3, 3] ! k),
      workgroup = (\<lambda>k. [5, 5, 7, 5, 0, 0, 5, 5, 5] ! k),
      withdrawn = (\<lambda>k. [0, 0, 0, 0, 0, 0, 1, 0, 0] ! k),
      age_group = (\<lambda>k. [1, 2, 3, 2, 2, 2, 2, 1, 2] ! k),
      nborhood = (\<lambda>k. [4, 4, 9, 4, 4, 4, 4, 4, 4] ! k),
      school = (\<lambda>k. [2, 0, 0, 0, 0, 0, 0, -2, 0] ! k),
      status = (\<lambda>d k. [Infected, Susceptible, Susceptible, Immune,
                        Infected, Susceptible, Infected, Infected, Susceptible] ! k),
      disease_counter = (\<lambda>d k. [6, 0, 0, 0, 1, 0, 6, 6, 0] ! k)\<rparr>"

definition lparm_ex :: DiseaseParm where
  "lparm_ex =
     \<lparr>infect = 1 / 2, vac_eff = 1, xmit_work = 1 / 10,
      xmit_comm = (\<lambda>a. 1 / 5), xmit_comm_SC = (\<lambda>a. 2 / 5),
      xmit_hood = (\<lambda>a. 1 / 2), xmit_hood_SC = (\<lambda>a. 1),
      incubation_length = 3\<rparr>"

text \<open>Disease parameters outside the range of probabilities: the hazard is 4.\<close>

definition lparm_big :: DiseaseParm where
  "lparm_big =
     \<lparr>infect = 4, vac_eff = 1, xmit_work = 1 / 2,
      xmit_comm = (\<lambda>a. 1 / 2), xmit_comm_SC = (\<lambda>a. 1 / 2),
      xmit_hood = (\<lambda>a. 1 / 2), xmit_hood_SC = (\<lambda>a. 1 / 2),
      incubation_length = 3\<rparr>"

text \<open>The store at the start of a step: every accumulator is 1, nothing has happened.\<close>

definition mem_ex :: mem where
  "mem_ex = \<lparr>prob = (\<lambda>d k. 1), trace = []\<rparr>"

text \<open>
  The patch of the nine agents: a tile of 2 by 2 cells, the struct of an agent is its cell
  \<open>(x, y)\<close>, the flat cell id is \<open>x + 2 * y\<close>. Agents 0, 1, 2, 3 and 6 are in cell 0,
  agents 4, 5 and 7 in cell 1, agent 8 in cell 3; cell 2 is empty.
\<close>

definition tile_ex :: "(nat \<times> nat) AgentTile" where
  "tile_ex =
     \<lparr>aos = [(0, 0), (0, 0), (0, 0), (0, 0), (1, 0), (1, 0), (0, 0), (1, 0), (1, 1)],
      tile_data = ptd_ex,
      particle_bin = (\<lambda>(x, y). x + 2 * y),
      num_cells = 4,
      numDiseases = 1,
      getDiseaseParameters_d = (\<lambda>d. lparm_ex)\<rparr>"


section \<open>Properties of the kernels\<close>

lemmas ptd_ex_simps = ptd_ex_def lparm_ex_def lparm_big_def mem_ex_def

lemma prob_atomic_multiply:
  "prob (atomic_multiply p j v m) q k =
     (if q = p \<and> k = j then prob m p j * v else prob m q k)"
  by (simp add: atomic_multiply_def)

lemma trace_atomic_multiply:
  "trace (atomic_multiply p j v m) = trace m @ [AtomicMultiply p j v]"
  by (simp add: atomic_multiply_def)

text \<open>
  C1, as the spec states it, fails: agent 0 has a valid work location and workgroup 5,
  agent 3 has workgroup 5 too, neither is withdrawn, and yet the accumulator of agent 3 is
  not multiplied by \<open>1 - infect * vac_eff * xmit_work * scale\<close>, because agent 3 has no
  valid work location.
\<close>

theorem work_kernel_claim_counterexample:
  "withdrawn ptd_ex 0 = 0 \<and> withdrawn ptd_ex 3 = 0
   \<and> work_i ptd_ex 0 \<ge> 0 \<and> workgroup ptd_ex 0 \<noteq> 0
   \<and> workgroup ptd_ex 3 = workgroup ptd_ex 0
   \<and> prob (binaryInteractionWork 0 3 ptd_ex lparm_ex 1 0 mem_ex) 0 3
       \<noteq> prob mem_ex 0 3 * (1 - infect lparm_ex * vac_eff lparm_ex * xmit_work lparm_ex * 1)"
  by (simp add: binaryInteractionWork_def prob_atomic_multiply ptd_ex_simps)

text \<open>
  C1 (amended). For a source and a target that are not withdrawn, the workplace kernel
  multiplies the accumulator of the target by \<open>1 - infect * vac_eff * xmit_work * scale\<close>
  exactly when the source has a workgroup assigned and a valid work location, the target
  has a valid work location, and the two workgroups are equal; in every other case the
  accumulator of the target keeps its value.
\<close>

theorem work_kernel_effect:
  assumes "withdrawn a_ptd a_i = 0" and "withdrawn a_ptd a_j = 0"
  shows "prob (binaryInteractionWork a_i a_j a_ptd a_lparm a_work_scale a_prob_ptr m) a_prob_ptr a_j =
     (if workgroup a_ptd a_i \<noteq> 0 \<and> work_i a_ptd a_i \<ge> 0 \<and> work_i a_ptd a_j \<ge> 0
         \<and> workgroup a_ptd a_j = workgroup a_ptd a_i
      then prob m a_prob_ptr a_j
             * (1 - infect a_lparm * vac_eff a_lparm * xmit_work a_lparm * a_work_scale)
      else prob m a_prob_ptr a_j)"
  using assms by (simp add: binaryInteractionWork_def prob_atomic_multiply)

text \<open>
  The two scenarios of the spec: with \<open>infect = 0.5\<close>, \<open>vac_eff = 1\<close>, \<open>xmit_work = 0.1\<close>,
  \<open>scale = 1\<close> and the common workgroup 5 the accumulator becomes 0.95; with the workgroups
  5 and 7 and both work locations valid it stays 1.
\<close>

theorem work_kernel_effect_witness:
  "withdrawn ptd_ex 0 = 0 \<and> withdrawn ptd_ex 1 = 0 \<and> withdrawn ptd_ex 2 = 0
   \<and> workgroup ptd_ex 0 = 5 \<and> workgroup ptd_ex 1 = 5 \<and> workgroup ptd_ex 2 = 7
   \<and> work_i ptd_ex 0 \<ge> 0 \<and> work_i ptd_ex 1 \<ge> 0 \<and> work_i ptd_ex 2 \<ge> 0
   \<and> prob mem_ex 0 1 = 1 \<and> prob mem_ex 0 2 = 1
   \<and> prob (binaryInteractionWork 0 1 ptd_ex lparm_ex 1 0 mem_ex) 0 1 = 95 / 100
   \<and> prob (binaryInteractionWork 0 2 ptd_ex lparm_ex 1 0 mem_ex) 0 2 = 1"
  using work_kernel_effect [of ptd_ex 0 1 lparm_ex 1 0 mem_ex]
        work_kernel_effect [of ptd_ex 0 2 lparm_ex 1 0 mem_ex]
  by (simp add: ptd_ex_simps)

text \<open>
  C2. For a source and a target that are not withdrawn, the neighbourhood kernel always
  applies the community factor, with the rate taken from \<open>xmit_comm\<close> when the source
  attends school (\<open>school \<ge> 0\<close>) and from \<open>xmit_comm_SC\<close> otherwise, at the age group of
  the target; it applies the neighbourhood factor (\<open>xmit_hood\<close> or \<open>xmit_hood_SC\<close>, chosen
  the same way) if and only if the two agents have the same neighbourhood id. With the
  source attending school, a shared neighbourhood and the scale 1 of the driver, the
  accumulator of the target is multiplied by
  \<open>(1 - hazard * xmit_comm[age]) * (1 - hazard * xmit_hood[age])\<close>.
\<close>

theorem nborhood_kernel_effect:
  assumes "withdrawn a_ptd a_i = 0" and "withdrawn a_ptd a_j = 0"
  shows "prob (binaryInteractionNborhood a_i a_j a_ptd a_lparm a_social_scale a_prob_ptr m) a_prob_ptr a_j =
           prob m a_prob_ptr a_j
           * (1 - infect a_lparm * vac_eff a_lparm
                  * (if school a_ptd a_i \<ge> 0 then xmit_comm a_lparm (age_group a_ptd a_j)
                     else xmit_comm_SC a_lparm (age_group a_ptd a_j))
                  * a_social_scale)
           * (if nborhood a_ptd a_i = nborhood a_ptd a_j
              then 1 - infect a_lparm * vac_eff a_lparm
                       * (if school a_ptd a_i \<ge> 0 then xmit_hood a_lparm (age_group a_ptd a_j)
                          else xmit_hood_SC a_lparm (age_group a_ptd a_j))
                       * a_social_scale
              else 1)
       \<and> (school a_ptd a_i \<ge> 0 \<and> nborhood a_ptd a_i = nborhood a_ptd a_j \<longrightarrow>
            prob (binaryInteractionNborhood a_i a_j a_ptd a_lparm 1 a_prob_ptr m) a_prob_ptr a_j =
              prob m a_prob_ptr a_j
                * ((1 - infect a_lparm * vac_eff a_lparm * xmit_comm a_lparm (age_group a_ptd a_j))
                 * (1 - infect a_lparm * vac_eff a_lparm * xmit_hood a_lparm (age_group a_ptd a_j))))"
  using assms
  by (simp add: binaryInteractionNborhood_def prob_atomic_multiply not_le Let_def)

text \<open>
  Agent 0 attends school and shares the neighbourhood of agent 1: both factors apply,
  \<open>(1 - 0.5 * 0.2) * (1 - 0.5 * 0.5) = 0.675\<close>. Agent 2 lives in another neighbourhood:
  only the community factor applies. Agent 7 does not attend school: the school-cancelled
  tables are used, \<open>(1 - 0.5 * 0.4) * (1 - 0.5 * 1) = 0.4\<close>.
\<close>

theorem nborhood_kernel_effect_witness:
  "withdrawn ptd_ex 0 = 0 \<and> withdrawn ptd_ex 1 = 0 \<and> withdrawn ptd_ex 2 = 0 \<and> withdrawn ptd_ex 7 = 0
   \<and> school ptd_ex 0 \<ge> 0 \<and> \<not> school ptd_ex 7 \<ge> 0
   \<and> nborhood ptd_ex 0 = nborhood ptd_ex 1 \<and> nborhood ptd_ex 0 \<noteq> nborhood ptd_ex 2
   \<and> nborhood ptd_ex 7 = nborhood ptd_ex 1
   \<and> prob (binaryInteractionNborhood 0 1 ptd_ex lparm_ex 1 0 mem_ex) 0 1 = 675 / 1000
   \<and> prob (binaryInteractionNborhood 0 2 ptd_ex lparm_ex 1 0 mem_ex) 0 2 = 9 / 10
   \<and> prob (binaryInteractionNborhood 7 1 ptd_ex lparm_ex 1 0 mem_ex) 0 1 = 4 / 10"
  using nborhood_kernel_effect [of ptd_ex 0 1 lparm_ex 1 0 mem_ex]
        nborhood_kernel_effect [of ptd_ex 0 2 lparm_ex 1 0 mem_ex]
        nborhood_kernel_effect [of ptd_ex 7 1 lparm_ex 1 0 mem_ex]
  by (simp add: ptd_ex_simps)

text \<open>
  C3. If the source or the target is withdrawn, both kernels return without touching the
  store: no accumulator of any disease or agent changes and no atomic operation happens,
  whatever the workgroup, neighbourhood, school and age data are.
\<close>

theorem withdrawn_no_effect:
  assumes "withdrawn a_ptd a_i \<noteq> 0 \<or> withdrawn a_ptd a_j \<noteq> 0"
  shows "binaryInteractionWork a_i a_j a_ptd a_lparm a_scale a_prob_ptr m = m
       \<and> binaryInteractionNborhood a_i a_j a_ptd a_lparm a_scale a_prob_ptr m = m"
  using assms by (simp add: binaryInteractionWork_def binaryInteractionNborhood_def)

text \<open>
  Agent 6 is withdrawn and otherwise a coworker and neighbour of agent 1: nothing happens
  with agent 6 as the source, and nothing with agent 6 as the target.
\<close>

theorem withdrawn_no_effect_witness:
  "withdrawn ptd_ex 6 = 1
   \<and> workgroup ptd_ex 6 = workgroup ptd_ex 1 \<and> nborhood ptd_ex 6 = nborhood ptd_ex 1
   \<and> binaryInteractionWork 6 1 ptd_ex lparm_ex 1 0 mem_ex = mem_ex
   \<and> binaryInteractionNborhood 6 1 ptd_ex lparm_ex 1 0 mem_ex = mem_ex
   \<and> binaryInteractionWork 0 6 ptd_ex lparm_ex 1 0 mem_ex = mem_ex
   \<and> binaryInteractionNborhood 0 6 ptd_ex lparm_ex 1 0 mem_ex = mem_ex"
  using withdrawn_no_effect [of ptd_ex 6 1 lparm_ex 1 0 mem_ex]
        withdrawn_no_effect [of ptd_ex 0 6 lparm_ex 1 0 mem_ex]
  by (simp add: ptd_ex_simps)

text \<open>
  C6. Neither kernel clamps the factor \<open>1 - hazard * rate * scale\<close>, and neither checks the
  disease parameters: whenever the product \<open>hazard * rate * scale\<close> exceeds 1 on a pair of
  coworkers (workplace kernel), or on a pair from different neighbourhoods whose source
  attends school (neighbourhood kernel), the single atomic multiplication of the kernel
  has a negative factor, and a positive accumulator becomes negative.
\<close>

theorem kernels_do_not_clamp:
  assumes "withdrawn a_ptd a_i = 0" and "withdrawn a_ptd a_j = 0"
  shows "(workgroup a_ptd a_i \<noteq> 0 \<and> work_i a_ptd a_i \<ge> 0 \<and> work_i a_ptd a_j \<ge> 0
            \<and> workgroup a_ptd a_i = workgroup a_ptd a_j
            \<and> infect a_lparm * vac_eff a_lparm * xmit_work a_lparm * a_scale > 1 \<longrightarrow>
          binaryInteractionWork a_i a_j a_ptd a_lparm a_scale a_prob_ptr m
            = atomic_multiply a_prob_ptr a_j
                (1 - infect a_lparm * vac_eff a_lparm * xmit_work a_lparm * a_scale) m
          \<and> 1 - infect a_lparm * vac_eff a_lparm * xmit_work a_lparm * a_scale < 0
          \<and> (0 < prob m a_prob_ptr a_j \<longrightarrow>
                prob (binaryInteractionWork a_i a_j a_ptd a_lparm a_scale a_prob_ptr m)
                  a_prob_ptr a_j < 0))
       \<and> (nborhood a_ptd a_i \<noteq> nborhood a_ptd a_j \<and> school a_ptd a_i \<ge> 0
            \<and> infect a_lparm * vac_eff a_lparm * xmit_comm a_lparm (age_group a_ptd a_j) * a_scale > 1 \<longrightarrow>
          binaryInteractionNborhood a_i a_j a_ptd a_lparm a_scale a_prob_ptr m
            = atomic_multiply a_prob_ptr a_j
                (1 - infect a_lparm * vac_eff a_lparm * xmit_comm a_lparm (age_group a_ptd a_j) * a_scale) m
          \<and> 1 - infect a_lparm * vac_eff a_lparm * xmit_comm a_lparm (age_group a_ptd a_j) * a_scale < 0
          \<and> (0 < prob m a_prob_ptr a_j \<longrightarrow>
                prob (binaryInteractionNborhood a_i a_j a_ptd a_lparm a_scale a_prob_ptr m)
                  a_prob_ptr a_j < 0))"
  using assms
  by (simp add: binaryInteractionWork_def binaryInteractionNborhood_def prob_atomic_multiply
        Let_def mult_pos_neg)

text \<open>
  With \<open>infect = 4\<close> and a rate of 0.5 the factor is \<open>1 - 2 = -1\<close>: the accumulator of
  agent 1 (coworker of agent 0) and the accumulator of agent 2 (another neighbourhood) both
  go from 1 to - 1.
\<close>

theorem kernels_do_not_clamp_witness:
  "withdrawn ptd_ex 0 = 0 \<and> withdrawn ptd_ex 1 = 0 \<and> withdrawn ptd_ex 2 = 0
   \<and> infect lparm_big * vac_eff lparm_big * xmit_work lparm_big * 1 > 1
   \<and> infect lparm_big * vac_eff lparm_big * xmit_comm lparm_big (age_group ptd_ex 2) * 1 > 1
   \<and> nborhood ptd_ex 0 \<noteq> nborhood ptd_ex 2 \<and> school ptd_ex 0 \<ge> 0
   \<and> 0 < prob mem_ex 0 1 \<and> 0 < prob mem_ex 0 2
   \<and> prob (binaryInteractionWork 0 1 ptd_ex lparm_big 1 0 mem_ex) 0 1 = - 1
   \<and> prob (binaryInteractionNborhood 0 2 ptd_ex lparm_big 1 0 mem_ex) 0 2 = - 1"
  using kernels_do_not_clamp [of ptd_ex 0 1 lparm_big 1 0 mem_ex]
        kernels_do_not_clamp [of ptd_ex 0 2 lparm_big 1 0 mem_ex]
  by (simp add: binaryInteractionWork_def binaryInteractionNborhood_def prob_atomic_multiply
        Let_def ptd_ex_simps)

text \<open>
  C9. The workplace kernel changes an accumulator only when the source's workgroup id is
  not 0, the source's work location is valid, the target's work location is valid and the
  two workgroup ids are equal (and neither agent is withdrawn). In particular a target
  without a valid work location is never affected, and neither is the target of a source
  carrying the sentinel workgroup 0, even when the two workgroup ids are equal.
\<close>

theorem work_kernel_changes_only_coworkers:
  "(prob (binaryInteractionWork a_i a_j a_ptd a_lparm a_work_scale a_prob_ptr m) \<noteq> prob m \<longrightarrow>
      workgroup a_ptd a_i \<noteq> 0 \<and> work_i a_ptd a_i \<ge> 0 \<and> work_i a_ptd a_j \<ge> 0
      \<and> workgroup a_ptd a_i = workgroup a_ptd a_j
      \<and> withdrawn a_ptd a_i = 0 \<and> withdrawn a_ptd a_j = 0)
   \<and> (work_i a_ptd a_j < 0 \<longrightarrow>
        prob (binaryInteractionWork a_i a_j a_ptd a_lparm a_work_scale a_prob_ptr m) = prob m)
   \<and> (workgroup a_ptd a_i = 0 \<longrightarrow>
        prob (binaryInteractionWork a_i a_j a_ptd a_lparm a_work_scale a_prob_ptr m) = prob m)"
  by (simp add: binaryInteractionWork_def atomic_multiply_def)

text \<open>
  The accumulator of agent 1 changes under the source 0, and the four conditions hold
  there. Agent 3 has the workgroup of agent 0 but no valid work location; agents 4 and 5
  both carry workgroup 0 and valid work locations: nothing changes.
\<close>

theorem work_kernel_changes_only_coworkers_witness:
  "prob (binaryInteractionWork 0 1 ptd_ex lparm_ex 1 0 mem_ex) \<noteq> prob mem_ex
   \<and> workgroup ptd_ex 0 \<noteq> 0 \<and> work_i ptd_ex 0 \<ge> 0 \<and> work_i ptd_ex 1 \<ge> 0
   \<and> workgroup ptd_ex 0 = workgroup ptd_ex 1
   \<and> work_i ptd_ex 3 < 0 \<and> workgroup ptd_ex 3 = workgroup ptd_ex 0
   \<and> prob (binaryInteractionWork 0 3 ptd_ex lparm_ex 1 0 mem_ex) = prob mem_ex
   \<and> workgroup ptd_ex 4 = 0 \<and> workgroup ptd_ex 5 = workgroup ptd_ex 4
   \<and> work_i ptd_ex 4 \<ge> 0 \<and> work_i ptd_ex 5 \<ge> 0
   \<and> prob (binaryInteractionWork 4 5 ptd_ex lparm_ex 1 0 mem_ex) = prob mem_ex"
proof -
  have "prob (binaryInteractionWork 0 1 ptd_ex lparm_ex 1 0 mem_ex) 0 1 \<noteq> prob mem_ex 0 1"
    by (simp add: binaryInteractionWork_def prob_atomic_multiply ptd_ex_simps)
  then have changed: "prob (binaryInteractionWork 0 1 ptd_ex lparm_ex 1 0 mem_ex) \<noteq> prob mem_ex"
    by metis
  have no_loc: "work_i ptd_ex 3 < 0" and sentinel: "workgroup ptd_ex 4 = 0"
    by (simp_all add: ptd_ex_def)
  from changed no_loc sentinel
    work_kernel_changes_only_coworkers [of 0 1 ptd_ex lparm_ex 1 0 mem_ex]
    work_kernel_changes_only_coworkers [of 0 3 ptd_ex lparm_ex 1 0 mem_ex]
    work_kernel_changes_only_coworkers [of 4 5 ptd_ex lparm_ex 1 0 mem_ex]
  show ?thesis
    by (simp add: ptd_ex_def)
qed

text \<open>
  C10. A kernel invocation with neither agent withdrawn is exactly one atomic
  multiplication on the accumulator of the target: the workplace kernel multiplies by
  \<open>1 - hazard * xmit_work * scale\<close> for a pair of coworkers and by 1 otherwise; the
  neighbourhood kernel commits the product of its community factor and (for a shared
  neighbourhood) its neighbourhood factor in that one operation. With an agent withdrawn, a
  kernel performs no atomic operation and leaves the store as it is. An atomic
  multiplication writes the product into the one accumulator and is recorded once.
\<close>

theorem kernel_one_atomic_multiply:
  "(withdrawn a_ptd a_i = 0 \<and> withdrawn a_ptd a_j = 0 \<longrightarrow>
      binaryInteractionWork a_i a_j a_ptd a_lparm a_scale a_prob_ptr m
        = atomic_multiply a_prob_ptr a_j
            (if workgroup a_ptd a_i \<noteq> 0 \<and> work_i a_ptd a_i \<ge> 0 \<and> work_i a_ptd a_j \<ge> 0
                \<and> workgroup a_ptd a_i = workgroup a_ptd a_j
             then 1 - infect a_lparm * vac_eff a_lparm * xmit_work a_lparm * a_scale
             else 1) m
      \<and> binaryInteractionNborhood a_i a_j a_ptd a_lparm a_scale a_prob_ptr m
        = atomic_multiply a_prob_ptr a_j
            ((1 - infect a_lparm * vac_eff a_lparm
                   * (if school a_ptd a_i \<ge> 0 then xmit_comm a_lparm (age_group a_ptd a_j)
                      else xmit_comm_SC a_lparm (age_group a_ptd a_j))
                   * a_scale)
             * (if nborhood a_ptd a_i = nborhood a_ptd a_j
                then 1 - infect a_lparm * vac_eff a_lparm
                         * (if school a_ptd a_i \<ge> 0 then xmit_hood a_lparm (age_group a_ptd a_j)
                            else xmit_hood_SC a_lparm (age_group a_ptd a_j))
                         * a_scale
                else 1)) m)
   \<and> (withdrawn a_ptd a_i \<noteq> 0 \<or> withdrawn a_ptd a_j \<noteq> 0 \<longrightarrow>
        binaryInteractionWork a_i a_j a_ptd a_lparm a_scale a_prob_ptr m = m
        \<and> binaryInteractionNborhood a_i a_j a_ptd a_lparm a_scale a_prob_ptr m = m)
   \<and> prob (atomic_multiply a_prob_ptr a_j f m)
        = (prob m)(a_prob_ptr := (prob m a_prob_ptr)(a_j := prob m a_prob_ptr a_j * f))
   \<and> trace (atomic_multiply a_prob_ptr a_j f m) = trace m @ [AtomicMultiply a_prob_ptr a_j f]"
  by (simp add: binaryInteractionWork_def binaryInteractionNborhood_def atomic_multiply_def
        Let_def not_le)

text \<open>
  On the example patch: one multiplication by 0.95 for the coworkers 0 and 1, one by 1 for
  the workgroups 5 and 7, one by 0.675 for the neighbours 0 and 1, each changing the
  accumulator of the target and nothing else, and none when agent 6, who is withdrawn, is
  the source.
\<close>

theorem kernel_one_atomic_multiply_witness:
  "withdrawn ptd_ex 0 = 0 \<and> withdrawn ptd_ex 1 = 0 \<and> withdrawn ptd_ex 2 = 0
   \<and> withdrawn ptd_ex 6 = 1
   \<and> prob (binaryInteractionWork 0 1 ptd_ex lparm_ex 1 0 mem_ex) = (prob mem_ex)(0 := (prob mem_ex 0)(1 := 95 / 100))
   \<and> prob (binaryInteractionWork 0 1 ptd_ex lparm_ex 1 0 mem_ex) 0 1 = 95 / 100
   \<and> prob mem_ex 0 1 = 1
   \<and> trace (binaryInteractionWork 0 1 ptd_ex lparm_ex 1 0 mem_ex) = [AtomicMultiply 0 1 (95 / 100)]
   \<and> prob (binaryInteractionWork 0 2 ptd_ex lparm_ex 1 0 mem_ex) = (prob mem_ex)(0 := (prob mem_ex 0)(2 := 1))
   \<and> trace (binaryInteractionWork 0 2 ptd_ex lparm_ex 1 0 mem_ex) = [AtomicMultiply 0 2 1]
   \<and> prob (binaryInteractionNborhood 0 1 ptd_ex lparm_ex 1 0 mem_ex) = (prob mem_ex)(0 := (prob mem_ex 0)(1 := 675 / 1000))
   \<and> trace (binaryInteractionNborhood 0 1 ptd_ex lparm_ex 1 0 mem_ex) = [AtomicMultiply 0 1 (675 / 1000)]
   \<and> binaryInteractionWork 6 1 ptd_ex lparm_ex 1 0 mem_ex = mem_ex
   \<and> binaryInteractionNborhood 6 1 ptd_ex lparm_ex 1 0 mem_ex = mem_ex"
proof -
  have wd: "withdrawn ptd_ex 0 = 0" "withdrawn ptd_ex 1 = 0" "withdrawn ptd_ex 2 = 0"
    "withdrawn ptd_ex 6 = 1"
    by (simp_all add: ptd_ex_def)
  note k01 = kernel_one_atomic_multiply [of ptd_ex 0 1 lparm_ex 1 0 mem_ex]
  note k02 = kernel_one_atomic_multiply [of ptd_ex 0 2 lparm_ex 1 0 mem_ex]
  note k61 = kernel_one_atomic_multiply [of ptd_ex 6 1 lparm_ex 1 0 mem_ex]
  from wd k01 k02 k61 show ?thesis
    by (simp add: ptd_ex_simps atomic_multiply_def)
qed

section \<open>The counting sort of the bin index\<close>

lemma length_count_pass: "length (count_pass cells counts) = length counts"
  by (induction cells arbitrary: counts) auto

lemma nth_count_pass:
  "c < length counts \<Longrightarrow> count_pass cells counts ! c = counts ! c + count_list cells c"
  by (induction cells arbitrary: counts) (auto simp: nth_list_update)

lemma sum_list_count_pass:
  "list_all (\<lambda>c. c < length counts) cells \<Longrightarrow>
     sum_list (count_pass cells counts) = sum_list counts + length cells"
proof (induction cells arbitrary: counts)
  case Nil
  then show ?case by simp
next
  case (Cons c cells)
  then have c: "c < length counts" by simp
  have "sum_list (counts[c := counts ! c + 1]) = sum_list counts + 1"
    using c by (simp add: sum_list_update)
  with Cons show ?case by simp
qed

lemma length_prefix_sum: "length (prefix_sum s counts) = Suc (length counts)"
  by (induction counts arbitrary: s) auto

lemma nth_prefix_sum:
  "k \<le> length counts \<Longrightarrow> prefix_sum s counts ! k = s + sum_list (take k counts)"
proof (induction counts arbitrary: s k)
  case Nil
  then show ?case by simp
next
  case (Cons n counts)
  then show ?case by (cases k) (simp_all add: add.assoc)
qed

lemma count_list_take_mono:
  "k \<le> k' \<Longrightarrow> count_list (take k cells) x \<le> count_list (take k' cells) x"
proof -
  assume "k \<le> k'"
  then have "take k' cells = take k cells @ take (k' - k) (drop k cells)"
    by (metis le_add_diff_inverse take_add)
  then show ?thesis by simp
qed

lemma count_list_take_less:
  assumes "k < k'" and "k' \<le> length cells"
  shows "count_list (take k cells) (cells ! k) < count_list (take k' cells) (cells ! k)"
proof -
  have "count_list (take (Suc k) cells) (cells ! k) = count_list (take k cells) (cells ! k) + 1"
    using assms by (simp add: take_Suc_conv_app_nth)
  moreover have "count_list (take (Suc k) cells) (cells ! k) \<le> count_list (take k' cells) (cells ! k)"
    using assms by (intro count_list_take_mono) simp
  ultimately show ?thesis by simp
qed


lemma length_cell_offsets: "length (cell_offsets nbins cells) = Suc nbins"
  by (simp add: cell_offsets_def length_prefix_sum length_count_pass)

lemma cell_offsets_nth:
  "c \<le> nbins \<Longrightarrow>
     cell_offsets nbins cells ! c = sum_list (take c (count_pass cells (replicate nbins 0)))"
  by (simp add: cell_offsets_def nth_prefix_sum length_count_pass)

lemma cell_offsets_Suc:
  assumes "c < nbins"
  shows "cell_offsets nbins cells ! Suc c = cell_offsets nbins cells ! c + count_list cells c"
proof -
  let ?counts = "count_pass cells (replicate nbins 0)"
  have "take (Suc c) ?counts = take c ?counts @ [?counts ! c]"
    using assms by (simp add: take_Suc_conv_app_nth length_count_pass)
  moreover have "?counts ! c = count_list cells c"
    using assms by (simp add: nth_count_pass)
  ultimately show ?thesis
    using assms by (simp add: cell_offsets_nth)
qed

lemma cell_offsets_mono:
  "c \<le> c' \<Longrightarrow> c' \<le> nbins \<Longrightarrow> cell_offsets nbins cells ! c \<le> cell_offsets nbins cells ! c'"
proof (induction c' rule: nat_induct_at_least)
  case base
  then show ?case by simp
next
  case (Suc n)
  then show ?case by (simp add: cell_offsets_Suc)
qed

lemma cell_offsets_last:
  assumes "list_all (\<lambda>c. c < nbins) cells"
  shows "cell_offsets nbins cells ! nbins = length cells"
proof -
  have "sum_list (count_pass cells (replicate nbins 0)) = length cells"
    using assms sum_list_count_pass [of "replicate nbins 0" cells] by (simp add: sum_list_replicate)
  then show ?thesis
    by (simp add: cell_offsets_nth length_count_pass)
qed

lemma slot_bounds:
  assumes "k < length cells" and "cells ! k < nbins"
  shows "cell_offsets nbins cells ! (cells ! k) \<le> slot nbins cells k"
    and "slot nbins cells k < cell_offsets nbins cells ! Suc (cells ! k)"
proof -
  show "cell_offsets nbins cells ! (cells ! k) \<le> slot nbins cells k"
    by (simp add: slot_def)
  have "count_list (take k cells) (cells ! k) < count_list (take (length cells) cells) (cells ! k)"
    using assms by (intro count_list_take_less) simp_all
  then show "slot nbins cells k < cell_offsets nbins cells ! Suc (cells ! k)"
    using assms by (simp add: slot_def cell_offsets_Suc)
qed

lemma slot_less_length:
  assumes "list_all (\<lambda>c. c < nbins) cells" and "k < length cells"
  shows "slot nbins cells k < length cells"
proof -
  have c: "cells ! k < nbins"
    using assms by (simp add: list_all_length)
  have "slot nbins cells k < cell_offsets nbins cells ! Suc (cells ! k)"
    using assms c by (intro slot_bounds)
  also have "\<dots> \<le> cell_offsets nbins cells ! nbins"
    using c by (intro cell_offsets_mono) simp_all
  finally show ?thesis
    using assms by (simp add: cell_offsets_last)
qed

lemma slot_less:
  assumes cells: "list_all (\<lambda>c. c < nbins) cells"
    and "k < length cells" and "k' < length cells"
    and "cells ! k < cells ! k' \<or> (cells ! k = cells ! k' \<and> k < k')"
  shows "slot nbins cells k < slot nbins cells k'"
proof -
  have c: "cells ! k < nbins" and c': "cells ! k' < nbins"
    using assms by (simp_all add: list_all_length)
  from assms(4) show ?thesis
  proof
    assume less: "cells ! k < cells ! k'"
    have "slot nbins cells k < cell_offsets nbins cells ! Suc (cells ! k)"
      using assms c by (intro slot_bounds)
    also have "\<dots> \<le> cell_offsets nbins cells ! (cells ! k')"
      using less c' by (intro cell_offsets_mono) simp_all
    also have "\<dots> \<le> slot nbins cells k'"
      using assms c' by (intro slot_bounds)
    finally show ?thesis .
  next
    assume same: "cells ! k = cells ! k' \<and> k < k'"
    then have "count_list (take k cells) (cells ! k) < count_list (take k' cells) (cells ! k)"
      using assms by (intro count_list_take_less) simp_all
    with same show ?thesis by (simp add: slot_def)
  qed
qed

lemma slot_inj:
  assumes cells: "list_all (\<lambda>c. c < nbins) cells"
    and "k < length cells" and "k' < length cells"
    and "slot nbins cells k = slot nbins cells k'"
  shows "k = k'"
proof (rule ccontr)
  assume "k \<noteq> k'"
  then consider "cells ! k < cells ! k'" | "cells ! k' < cells ! k"
    | "cells ! k = cells ! k'" "k < k'" | "cells ! k = cells ! k'" "k' < k"
    by (meson nat_neq_iff)
  then show False
  proof cases
    case 1
    then have "slot nbins cells k < slot nbins cells k'"
      using assms by (intro slot_less) simp_all
    with assms show False by simp
  next
    case 2
    then have "slot nbins cells k' < slot nbins cells k"
      using assms by (intro slot_less) simp_all
    with assms show False by simp
  next
    case 3
    then have "slot nbins cells k < slot nbins cells k'"
      using assms by (intro slot_less) simp_all
    with assms show False by simp
  next
    case 4
    then have "slot nbins cells k' < slot nbins cells k"
      using assms by (intro slot_less) simp_all
    with assms show False by simp
  qed
qed


lemma scatter_pass_slots:
  assumes "list_all (\<lambda>c. c < nbins) cells"
    and "cells = done @ rest"
    and "length perm = length cells"
    and "nbins \<le> length counters"
    and "\<forall>c<nbins. counters ! c = cell_offsets nbins cells ! c + count_list done c"
    and "\<forall>k<length done. perm ! slot nbins cells k = k"
  shows "length (scatter_pass (length done) rest counters perm) = length cells
       \<and> (\<forall>k<length cells. scatter_pass (length done) rest counters perm ! slot nbins cells k = k)"
  using assms(2-)
proof (induction rest arbitrary: "done" counters perm)
  case Nil
  then show ?case by simp
next
  case (Cons c rest)
  let ?i = "length done"
  have i: "?i < length cells" and ci: "cells ! ?i = c" and ti: "take ?i cells = done"
    using Cons.prems(1) by simp_all
  have c: "c < nbins"
    using assms(1) i ci by (auto simp: list_all_length)
  have slot_i: "counters ! c = slot nbins cells ?i"
    using Cons.prems(4) c by (simp add: slot_def ci ti)
  have slot_lt: "slot nbins cells ?i < length perm"
    using assms(1) i Cons.prems(2) by (simp add: slot_less_length)
  have "length (scatter_pass (length (done @ [c])) rest (counters[c := counters ! c + 1])
                  (perm[counters ! c := ?i])) = length cells
      \<and> (\<forall>k<length cells. scatter_pass (length (done @ [c])) rest (counters[c := counters ! c + 1])
                  (perm[counters ! c := ?i]) ! slot nbins cells k = k)"
  proof (rule Cons.IH)
    show "cells = (done @ [c]) @ rest"
      using Cons.prems(1) by simp
    show "length (perm[counters ! c := ?i]) = length cells"
      using Cons.prems(2) by simp
    show "nbins \<le> length (counters[c := counters ! c + 1])"
      using Cons.prems(3) by simp
    show "\<forall>c'<nbins. counters[c := counters ! c + 1] ! c'
            = cell_offsets nbins cells ! c' + count_list (done @ [c]) c'"
      using Cons.prems(3,4) by (auto simp: nth_list_update)
    show "\<forall>k<length (done @ [c]). perm[counters ! c := ?i] ! slot nbins cells k = k"
    proof (intro allI impI)
      fix k assume "k < length (done @ [c])"
      then consider "k < ?i" | "k = ?i" by fastforce
      then show "perm[counters ! c := ?i] ! slot nbins cells k = k"
      proof cases
        case 1
        then have "slot nbins cells k \<noteq> slot nbins cells ?i"
          using slot_inj [OF assms(1), of k ?i] i by auto
        with 1 Cons.prems(5) show ?thesis
          by (simp add: slot_i)
      next
        case 2
        with slot_lt show ?thesis
          by (simp add: slot_i)
      qed
    qed
  qed
  then show ?case by simp
qed


lemma build_valid:
  assumes "list_all (\<lambda>c. c < nbins) (map binner pstruct)"
  shows "build nbins binner pstruct =
     Inr \<lparr>numItems = length pstruct, numBins = int nbins,
          permutation = scatter_pass 0 (map binner pstruct)
             (cell_offsets nbins (map binner pstruct)) (replicate (length pstruct) 0),
          offsets = cell_offsets nbins (map binner pstruct)\<rparr>"
  using assms by (simp add: build_def cell_offsets_def Let_def)

lemma scatter_all_slots:
  assumes "list_all (\<lambda>c. c < nbins) cells"
  shows "length (scatter_pass 0 cells (cell_offsets nbins cells) (replicate (length cells) 0))
           = length cells"
    and "k < length cells \<Longrightarrow>
         scatter_pass 0 cells (cell_offsets nbins cells) (replicate (length cells) 0)
           ! slot nbins cells k = k"
  using scatter_pass_slots [OF assms, of "[]" cells "replicate (length cells) 0"
      "cell_offsets nbins cells"]
  by (simp_all add: length_cell_offsets)

lemma slot_onto:
  assumes "list_all (\<lambda>c. c < nbins) cells" and "ii < length cells"
  shows "\<exists>k<length cells. slot nbins cells k = ii"
proof -
  have "inj_on (slot nbins cells) {..<length cells}"
    using slot_inj [OF assms(1)] by (auto simp: inj_on_def)
  moreover have "slot nbins cells ` {..<length cells} \<subseteq> {..<length cells}"
    using slot_less_length [OF assms(1)] by auto
  ultimately have "slot nbins cells ` {..<length cells} = {..<length cells}"
    by (intro endo_inj_surj) simp_all
  with assms(2) have "ii \<in> slot nbins cells ` {..<length cells}"
    by simp
  then show ?thesis by auto
qed


lemma perm_slot_inverse:
  assumes "list_all (\<lambda>c. c < nbins) cells" and "ii < length cells"
  defines "perm \<equiv> scatter_pass 0 cells (cell_offsets nbins cells) (replicate (length cells) 0)"
  shows "perm ! ii < length cells" and "slot nbins cells (perm ! ii) = ii"
proof -
  obtain k where k: "k < length cells" "slot nbins cells k = ii"
    using slot_onto [OF assms(1,2)] by blast
  then have "perm ! ii = k"
    using scatter_all_slots(2) [OF assms(1), of k] by (simp add: perm_def)
  with k show "perm ! ii < length cells" and "slot nbins cells (perm ! ii) = ii"
    by simp_all
qed

lemma perm_bij:
  assumes "list_all (\<lambda>c. c < nbins) cells"
  defines "perm \<equiv> scatter_pass 0 cells (cell_offsets nbins cells) (replicate (length cells) 0)"
  shows "bij_betw (\<lambda>ii. perm ! ii) {..<length cells} {..<length cells}"
proof (rule bij_betw_byWitness [where f' = "slot nbins cells"])
  show "\<forall>ii\<in>{..<length cells}. slot nbins cells (perm ! ii) = ii"
    using perm_slot_inverse(2) [OF assms(1)] by (simp add: perm_def)
  show "\<forall>k\<in>{..<length cells}. perm ! slot nbins cells k = k"
    using scatter_all_slots(2) [OF assms(1)] by (simp add: perm_def)
  show "(\<lambda>ii. perm ! ii) ` {..<length cells} \<subseteq> {..<length cells}"
    using perm_slot_inverse(1) [OF assms(1)] by (auto simp: perm_def)
  show "slot nbins cells ` {..<length cells} \<subseteq> {..<length cells}"
    using slot_less_length [OF assms(1)] by auto
qed

lemma perm_cell_range:
  assumes "list_all (\<lambda>c. c < nbins) cells" and "ii < length cells"
  defines "perm \<equiv> scatter_pass 0 cells (cell_offsets nbins cells) (replicate (length cells) 0)"
  shows "cell_offsets nbins cells ! (cells ! (perm ! ii)) \<le> ii"
    and "ii < cell_offsets nbins cells ! Suc (cells ! (perm ! ii))"
proof -
  have k: "perm ! ii < length cells" and s: "slot nbins cells (perm ! ii) = ii"
    using perm_slot_inverse [OF assms(1,2)] by (simp_all add: perm_def)
  have c: "cells ! (perm ! ii) < nbins"
    using assms(1) k by (simp add: list_all_length)
  show "cell_offsets nbins cells ! (cells ! (perm ! ii)) \<le> ii"
    using slot_bounds(1) [OF k c] s by simp
  show "ii < cell_offsets nbins cells ! Suc (cells ! (perm ! ii))"
    using slot_bounds(2) [OF k c] s by simp
qed

lemma cell_range_members:
  assumes "list_all (\<lambda>c. c < nbins) cells" and "c < nbins"
    and "cell_offsets nbins cells ! c \<le> jj" and "jj < cell_offsets nbins cells ! Suc c"
  defines "perm \<equiv> scatter_pass 0 cells (cell_offsets nbins cells) (replicate (length cells) 0)"
  shows "jj < length cells" and "perm ! jj < length cells" and "cells ! (perm ! jj) = c"
proof -
  have "cell_offsets nbins cells ! Suc c \<le> cell_offsets nbins cells ! nbins"
    using assms(2) by (intro cell_offsets_mono) simp_all
  with assms(1,4) show jj: "jj < length cells"
    by (simp add: cell_offsets_last)
  show k: "perm ! jj < length cells"
    using perm_slot_inverse(1) [OF assms(1) jj] by (simp add: perm_def)
  let ?c' = "cells ! (perm ! jj)"
  have c': "?c' < nbins"
    using assms(1) k by (simp add: list_all_length)
  have lo: "cell_offsets nbins cells ! ?c' \<le> jj" and hi: "jj < cell_offsets nbins cells ! Suc ?c'"
    using perm_cell_range [OF assms(1) jj] by (simp_all add: perm_def)
  show "?c' = c"
  proof (rule ccontr)
    assume "?c' \<noteq> c"
    then consider "?c' < c" | "c < ?c'" by (meson nat_neq_iff)
    then show False
    proof cases
      case 1
      then have "cell_offsets nbins cells ! Suc ?c' \<le> cell_offsets nbins cells ! c"
        using assms(2) by (intro cell_offsets_mono) simp_all
      with hi assms(3) show False by simp
    next
      case 2
      then have "cell_offsets nbins cells ! Suc c \<le> cell_offsets nbins cells ! ?c'"
        using c' by (intro cell_offsets_mono) simp_all
      with lo assms(4) show False by simp
    qed
  qed
qed

lemma sorted_cell_offsets: "sorted (cell_offsets nbins cells)"
proof (rule sorted_iff_nth_mono [THEN iffD2], intro allI impI)
  fix c c' assume "c \<le> c'" "c' < length (cell_offsets nbins cells)"
  then show "cell_offsets nbins cells ! c \<le> cell_offsets nbins cells ! c'"
    by (intro cell_offsets_mono) (simp_all add: length_cell_offsets)
qed

lemma cell_counts_sum:
  "n \<le> nbins \<Longrightarrow>
     (\<Sum>c<n. cell_offsets nbins cells ! (c + 1) - cell_offsets nbins cells ! c)
       = cell_offsets nbins cells ! n"
proof (induction n)
  case 0
  then show ?case by (simp add: cell_offsets_nth)
next
  case (Suc n)
  then show ?case by (simp add: cell_offsets_Suc)
qed


text \<open>
  C8. For every patch whose agents all have a cell of the patch, the index that the
  counting sort builds satisfies: the permutation array has one entry per agent and is a
  bijection on \<open>[0, N)\<close>, \<open>N\<close> the number of agents; the offsets array (one entry more than
  there are cells) is non-decreasing, starts at 0 and ends at \<open>N\<close>, so the per-cell counts
  sum to \<open>N\<close>; and the place of every agent in the permutation lies in the offset range of
  the cell that the binner computes for the agent.
\<close>

theorem build_bin_index_invariant:
  assumes "\<forall>p\<in>set pstruct. binner p < nbins"
  shows "\<exists>bins. build nbins binner pstruct = Inr bins
     \<and> numItems bins = length pstruct
     \<and> length (permutation bins) = length pstruct
     \<and> bij_betw (\<lambda>ii. permutation bins ! ii) {..<length pstruct} {..<length pstruct}
     \<and> length (offsets bins) = nbins + 1
     \<and> sorted (offsets bins)
     \<and> offsets bins ! 0 = 0
     \<and> offsets bins ! nbins = length pstruct
     \<and> (\<Sum>c<nbins. offsets bins ! (c + 1) - offsets bins ! c) = length pstruct
     \<and> (\<forall>ii<length pstruct.
           offsets bins ! binner (pstruct ! (permutation bins ! ii)) \<le> ii
           \<and> ii < offsets bins ! (binner (pstruct ! (permutation bins ! ii)) + 1))"
proof -
  let ?cells = "map binner pstruct"
  let ?offs = "cell_offsets nbins ?cells"
  let ?perm = "scatter_pass 0 ?cells ?offs (replicate (length pstruct) 0)"
  let ?bins = "\<lparr>numItems = length pstruct, numBins = int nbins,
                 permutation = ?perm, offsets = ?offs\<rparr>"
  have cells: "list_all (\<lambda>c. c < nbins) ?cells"
    using assms by (simp add: list_all_iff)
  have len: "length ?cells = length pstruct"
    by simp
  have "build nbins binner pstruct = Inr ?bins"
    using cells by (rule build_valid)
  moreover have "length ?perm = length pstruct"
    using scatter_all_slots(1) [OF cells] by simp
  moreover have "bij_betw (\<lambda>ii. ?perm ! ii) {..<length pstruct} {..<length pstruct}"
    using perm_bij [OF cells] by simp
  moreover have "length ?offs = nbins + 1"
    by (simp add: length_cell_offsets)
  moreover have "sorted ?offs"
    by (rule sorted_cell_offsets)
  moreover have "?offs ! 0 = 0"
    by (simp add: cell_offsets_nth)
  moreover have last: "?offs ! nbins = length pstruct"
    using cell_offsets_last [OF cells] by simp
  moreover have "(\<Sum>c<nbins. ?offs ! (c + 1) - ?offs ! c) = length pstruct"
    using cell_counts_sum [of nbins nbins ?cells] last by simp
  moreover have "\<forall>ii<length pstruct.
      ?offs ! binner (pstruct ! (?perm ! ii)) \<le> ii
      \<and> ii < ?offs ! (binner (pstruct ! (?perm ! ii)) + 1)"
  proof (intro allI impI)
    fix ii assume ii: "ii < length pstruct"
    then have k: "?perm ! ii < length pstruct"
      using perm_slot_inverse(1) [OF cells, of ii] by simp
    show "?offs ! binner (pstruct ! (?perm ! ii)) \<le> ii
        \<and> ii < ?offs ! (binner (pstruct ! (?perm ! ii)) + 1)"
      using perm_cell_range [OF cells, of ii] ii k by simp
  qed
  ultimately show ?thesis
    by simp
qed

text \<open>The index of the example patch: 9 agents, 4 cells, cell 2 empty.\<close>

theorem build_bin_index_invariant_witness:
  "build 4 (particle_bin tile_ex) (aos tile_ex) =
     Inr \<lparr>numItems = 9, numBins = 4, permutation = [0, 1, 2, 3, 6, 4, 5, 7, 8],
          offsets = [0, 5, 8, 8, 9]\<rparr>"
proof -
  have "\<forall>p\<in>set (aos tile_ex). particle_bin tile_ex p < 4"
    by (simp add: tile_ex_def)
  from build_bin_index_invariant [OF this]
  obtain bins where "build 4 (particle_bin tile_ex) (aos tile_ex) = Inr bins"
    by blast
  moreover have "build 4 (particle_bin tile_ex) (aos tile_ex) =
     Inr \<lparr>numItems = 9, numBins = 4, permutation = [0, 1, 2, 3, 6, 4, 5, 7, 8],
          offsets = [0, 5, 8, 8, 9]\<rparr>"
    by code_simp
  ultimately show ?thesis by simp
qed

section \<open>Termination of the pass on a valid index\<close>

lemma bins_validD:
  assumes "bins_valid T bins"
  shows "numItems bins = length (aos T)"
    and "0 \<le> numBins bins"
    and "length (permutation bins) = length (aos T)"
    and "length (offsets bins) = num_cells T + 1"
    and "i < length (aos T) \<Longrightarrow> particle_bin T (aos T ! i) < num_cells T"
    and "ii < length (aos T) \<Longrightarrow> permutation bins ! ii < length (aos T)"
    and "c < num_cells T \<Longrightarrow> offsets bins ! c \<le> jj \<Longrightarrow> jj < offsets bins ! (c + 1) \<Longrightarrow>
           jj < length (aos T)"
    and "c < num_cells T \<Longrightarrow> offsets bins ! c \<le> jj \<Longrightarrow> jj < offsets bins ! (c + 1) \<Longrightarrow>
           particle_bin T (aos T ! (permutation bins ! jj)) = c"
  using assms unfolding bins_valid_def by blast+

lemma makeBins_valid:
  assumes "\<forall>p\<in>set (aos T). particle_bin T p < num_cells T"
  shows "\<exists>bins. makeBins T = Inr bins \<and> bins_valid T bins"
proof -
  let ?cells = "map (particle_bin T) (aos T)"
  let ?offs = "cell_offsets (num_cells T) ?cells"
  let ?perm = "scatter_pass 0 ?cells ?offs (replicate (length (aos T)) 0)"
  let ?bins = "\<lparr>numItems = length (aos T), numBins = int (num_cells T),
                 permutation = ?perm, offsets = ?offs\<rparr>"
  have cells: "list_all (\<lambda>c. c < num_cells T) ?cells"
    using assms by (simp add: list_all_iff)
  have "makeBins T = Inr ?bins"
    unfolding makeBins_def using cells by (rule build_valid)
  moreover have "length ?perm = length (aos T)"
    using scatter_all_slots(1) [OF cells] by simp
  moreover have "\<forall>i<length (aos T). particle_bin T (aos T ! i) < num_cells T"
    using assms by simp
  moreover have "\<forall>ii<length (aos T). ?perm ! ii < length (aos T)"
    using perm_slot_inverse(1) [OF cells] by simp
  moreover have "\<forall>c<num_cells T. \<forall>jj. ?offs ! c \<le> jj \<and> jj < ?offs ! (c + 1) \<longrightarrow>
      jj < length (aos T) \<and> particle_bin T (aos T ! (?perm ! jj)) = c"
  proof (intro allI impI)
    fix c jj assume c: "c < num_cells T" and jj: "?offs ! c \<le> jj \<and> jj < ?offs ! (c + 1)"
    then have r: "?offs ! c \<le> jj" "jj < ?offs ! Suc c" by simp_all
    have "jj < length ?cells" "?perm ! jj < length ?cells" "?cells ! (?perm ! jj) = c"
      using cell_range_members [OF cells c r] by simp_all
    then show "jj < length (aos T) \<and> particle_bin T (aos T ! (?perm ! jj)) = c"
      by simp
  qed
  ultimately show ?thesis
    by (simp add: bins_valid_def length_cell_offsets)
qed

lemma makeBins_Inr_valid:
  assumes "makeBins T = Inr bins"
  shows "bins_valid T bins"
proof -
  have "list_all (\<lambda>c. c < num_cells T) (map (particle_bin T) (aos T))"
    using assms by (simp add: makeBins_def build_def Let_def split: if_splits)
  then have "\<forall>p\<in>set (aos T). particle_bin T p < num_cells T"
    by (simp add: list_all_iff)
  from makeBins_valid [OF this] assms show ?thesis
    by auto
qed

lemma for_each_total:
  assumes "\<And>x m. x \<in> set xs \<Longrightarrow> \<exists>m'. body x m = Inr m'"
  shows "\<exists>m'. for_each xs body m = Inr m'"
  using assms
proof (induction xs arbitrary: m)
  case Nil
  then show ?case by simp
next
  case (Cons x xs)
  obtain m1 where "body x m = Inr m1"
    using Cons.prems [of x m] by auto
  moreover have "\<exists>m'. for_each xs body m1 = Inr m'"
    using Cons.prems by (intro Cons.IH) simp
  ultimately show ?case by simp
qed

lemma for_each_invariant:
  assumes "for_each xs body m = Inr m'" and "P m"
    and "\<And>x m m'. x \<in> set xs \<Longrightarrow> P m \<Longrightarrow> body x m = Inr m' \<Longrightarrow> P m'"
  shows "P m'"
  using assms
proof (induction xs arbitrary: m)
  case Nil
  then show ?case by simp
next
  case (Cons x xs)
  from Cons.prems(1) obtain m1 where m1: "body x m = Inr m1" "for_each xs body m1 = Inr m'"
    by (auto split: sum.splits)
  have "P m1"
    using Cons.prems(2,3) m1(1) by auto
  with m1(2) show ?case
    using Cons.prems(3) by (intro Cons.IH [of m1]) auto
qed


lemma neighbor_step_total:
  assumes valid: "bins_valid T bins" and jj: "jj < length (aos T)"
  shows "\<exists>m'. neighbor_step K T bins d i jj m = Inr m'"
proof -
  have "jj < length (permutation bins)"
    using jj bins_validD(3) [OF valid] by simp
  moreover have "permutation bins ! jj < length (aos T)"
    using jj by (rule bins_validD(6) [OF valid])
  ultimately show ?thesis
    by (simp add: neighbor_step_def Let_def)
qed

lemma bin_item_total:
  assumes valid: "bins_valid T bins" and ii: "ii < length (aos T)"
  shows "\<exists>m'. bin_item K T bins d ii m = Inr m'"
proof -
  let ?i = "permutation bins ! ii"
  let ?c = "particle_bin T (aos T ! ?i)"
  have len: "ii < length (permutation bins)"
    using ii bins_validD(3) [OF valid] by simp
  have i: "?i < length (aos T)"
    using ii by (rule bins_validD(6) [OF valid])
  have c: "?c < num_cells T"
    using i by (rule bins_validD(5) [OF valid])
  have offs: "?c + 1 < length (offsets bins)"
    using c bins_validD(4) [OF valid] by simp
  have "\<exists>m'. for_each [offsets bins ! ?c..<offsets bins ! (?c + 1)]
                (neighbor_step K T bins d ?i) m = Inr m'"
  proof (rule for_each_total)
    fix jj m1 assume "jj \<in> set [offsets bins ! ?c..<offsets bins ! (?c + 1)]"
    then have "offsets bins ! ?c \<le> jj" "jj < offsets bins ! (?c + 1)"
      by simp_all
    then have "jj < length (aos T)"
      by (rule bins_validD(7) [OF valid c])
    then show "\<exists>m'. neighbor_step K T bins d ?i jj m1 = Inr m'"
      using valid by (intro neighbor_step_total)
  qed
  with len i offs show ?thesis
    by (simp add: bin_item_def Let_def)
qed

lemma interact_tile_total:
  assumes valid: "bins_valid T bins"
  shows "\<exists>m'. interact_tile K T bins m = Inr m'"
proof -
  have "\<exists>m'. for_each [0..<numDiseases T]
          (\<lambda>d. for_each [0..<numItems bins] (bin_item K T bins d)) m = Inr m'"
  proof (rule for_each_total)
    fix d m1
    show "\<exists>m'. for_each [0..<numItems bins] (bin_item K T bins d) m1 = Inr m'"
    proof (rule for_each_total)
      fix ii m2 assume "ii \<in> set [0..<numItems bins]"
      then have "ii < length (aos T)"
        using bins_validD(1) [OF valid] by simp
      then show "\<exists>m'. bin_item K T bins d ii m2 = Inr m'"
        using valid by (intro bin_item_total)
    qed
  qed
  with bins_validD(2) [OF valid] show ?thesis
    by (simp add: interact_tile_def)
qed

lemma neighbor_step_cases:
  assumes "neighbor_step K T bins d i jj m = Inr m'"
  shows "jj < length (permutation bins)" and "permutation bins ! jj < length (aos T)"
    and "m' = (if i = permutation bins ! jj then m
               else if isInfectious (permutation bins ! jj) (tile_data T)
                         (getDiseaseParameters_d T d) d
               then K (permutation bins ! jj) i (tile_data T) (getDiseaseParameters_d T d) 1 d
                      (m\<lparr>trace := trace m @ [KernelCall d (permutation bins ! jj) i]\<rparr>)
               else m)"
proof -
  show 1: "jj < length (permutation bins)"
    using assms by (simp add: neighbor_step_def split: if_splits)
  show 2: "permutation bins ! jj < length (aos T)"
    using assms 1 by (simp add: neighbor_step_def Let_def split: if_splits)
  show "m' = (if i = permutation bins ! jj then m
               else if isInfectious (permutation bins ! jj) (tile_data T)
                         (getDiseaseParameters_d T d) d
               then K (permutation bins ! jj) i (tile_data T) (getDiseaseParameters_d T d) 1 d
                      (m\<lparr>trace := trace m @ [KernelCall d (permutation bins ! jj) i]\<rparr>)
               else m)"
    using assms 1 2 by (simp add: neighbor_step_def Let_def split: if_splits)
qed

lemma bin_item_cases:
  assumes "bin_item K T bins d ii m = Inr m'"
  shows "ii < length (permutation bins)"
    and "permutation bins ! ii < length (aos T)"
    and "notSusceptible (permutation bins ! ii) (tile_data T) (getDiseaseParameters_d T d) d
           \<Longrightarrow> m' = m"
    and "\<not> notSusceptible (permutation bins ! ii) (tile_data T) (getDiseaseParameters_d T d) d
           \<Longrightarrow> for_each
                 [offsets bins ! particle_bin T (aos T ! (permutation bins ! ii))
                    ..<offsets bins ! (particle_bin T (aos T ! (permutation bins ! ii)) + 1)]
                 (neighbor_step K T bins d (permutation bins ! ii)) m = Inr m'"
proof -
  show 1: "ii < length (permutation bins)"
    using assms by (simp add: bin_item_def split: if_splits)
  show 2: "permutation bins ! ii < length (aos T)"
    using assms 1 by (simp add: bin_item_def Let_def split: if_splits)
  show "m' = m"
    if "notSusceptible (permutation bins ! ii) (tile_data T) (getDiseaseParameters_d T d) d"
    using assms 1 2 that by (simp add: bin_item_def Let_def split: if_splits)
  show "for_each
          [offsets bins ! particle_bin T (aos T ! (permutation bins ! ii))
             ..<offsets bins ! (particle_bin T (aos T ! (permutation bins ! ii)) + 1)]
          (neighbor_step K T bins d (permutation bins ! ii)) m = Inr m'"
    if "\<not> notSusceptible (permutation bins ! ii) (tile_data T) (getDiseaseParameters_d T d) d"
    using assms 1 2 that by (simp add: bin_item_def Let_def split: if_splits)
qed

section \<open>The accumulators a pass leaves alone\<close>

lemma work_kernel_frame: "writes_target_only binaryInteractionWork"
  by (auto simp: writes_target_only_def binaryInteractionWork_def prob_atomic_multiply Let_def)

lemma nborhood_kernel_frame: "writes_target_only binaryInteractionNborhood"
  by (auto simp: writes_target_only_def binaryInteractionNborhood_def prob_atomic_multiply Let_def)

lemma neighbor_step_frame:
  assumes K: "writes_target_only K"
    and step: "neighbor_step K T bins d i jj m = Inr m'" and ne: "(q, k) \<noteq> (d, i)"
  shows "prob m' q k = prob m q k"
proof -
  have "prob (K j i ptd lp s d m1) q k = prob m1 q k" for j ptd lp s m1
    using K ne unfolding writes_target_only_def by blast
  with step show ?thesis
    by (auto simp: neighbor_step_def Let_def split: if_splits)
qed

lemma bin_item_frame:
  assumes K: "writes_target_only K"
    and item: "bin_item K T bins d ii m = Inr m'"
    and k: "notSusceptible k (tile_data T) (getDiseaseParameters_d T q) q"
  shows "prob m' q k = prob m q k"
proof -
  let ?i = "permutation bins ! ii"
  let ?c = "particle_bin T (aos T ! ?i)"
  show ?thesis
  proof (cases "notSusceptible ?i (tile_data T) (getDiseaseParameters_d T d) d")
    case True
    with item show ?thesis
      by (simp add: bin_item_def Let_def split: if_splits)
  next
    case False
    with k have ne: "(q, k) \<noteq> (d, ?i)"
      by auto
    from item False
    have loop: "for_each [offsets bins ! ?c..<offsets bins ! (?c + 1)]
                  (neighbor_step K T bins d ?i) m = Inr m'"
      by (simp add: bin_item_def Let_def split: if_splits)
    show ?thesis
    proof (rule for_each_invariant [OF loop, where P = "\<lambda>m1. prob m1 q k = prob m q k"])
      show "prob m q k = prob m q k" by simp
    next
      fix jj m1 m2
      assume m1: "prob m1 q k = prob m q k"
        and step: "neighbor_step K T bins d ?i jj m1 = Inr m2"
      from neighbor_step_frame [OF K step ne] m1 show "prob m2 q k = prob m q k"
        by simp
    qed
  qed
qed

lemma interact_tile_frame:
  assumes K: "writes_target_only K"
    and run: "interact_tile K T bins m = Inr m'"
    and k: "notSusceptible k (tile_data T) (getDiseaseParameters_d T q) q"
  shows "prob m' q k = prob m q k"
proof -
  from run have loop: "for_each [0..<numDiseases T]
      (\<lambda>d. for_each [0..<numItems bins] (bin_item K T bins d)) m = Inr m'"
    by (simp add: interact_tile_def split: if_splits)
  show ?thesis
  proof (rule for_each_invariant [OF loop, where P = "\<lambda>m1. prob m1 q k = prob m q k"])
    show "prob m q k = prob m q k" by simp
  next
    fix d m1 m2
    assume m1: "prob m1 q k = prob m q k"
      and items: "for_each [0..<numItems bins] (bin_item K T bins d) m1 = Inr m2"
    show "prob m2 q k = prob m q k"
    proof (rule for_each_invariant [OF items, where P = "\<lambda>m3. prob m3 q k = prob m q k"])
      show "prob m1 q k = prob m q k" by (rule m1)
    next
      fix ii m3 m4
      assume m3: "prob m3 q k = prob m q k" and item: "bin_item K T bins d ii m3 = Inr m4"
      from bin_item_frame [OF K item k] m3 show "prob m4 q k = prob m q k"
        by simp
    qed
  qed
qed

text \<open>
  C4. An agent \<open>i\<close> for which \<open>notSusceptible\<close> holds for the disease \<open>d\<close> (status
  Immune, or Infected with the disease counter below the incubation length) has the same
  accumulator for \<open>d\<close> after an interaction pass as before it, whatever agents share its
  cell: for the body of the pass on any index \<open>bins\<close> whatsoever, and for the two passes
  \<open>interactAgentsWork\<close> and \<open>interactAgentsNborhood\<close>. On a patch whose agents all have a
  cell of the patch both passes run to completion.
\<close>

theorem notSusceptible_accumulator_unchanged:
  assumes i: "notSusceptible i (tile_data T) (getDiseaseParameters_d T d) d"
  shows "(interact_tile binaryInteractionWork T bins m = Inr mtw \<longrightarrow> prob mtw d i = prob m d i)
       \<and> (interact_tile binaryInteractionNborhood T bins m = Inr mtn \<longrightarrow> prob mtn d i = prob m d i)
       \<and> (interactAgentsWork T m = Inr mw \<longrightarrow> prob mw d i = prob m d i)
       \<and> (interactAgentsNborhood T m = Inr mn \<longrightarrow> prob mn d i = prob m d i)
       \<and> ((\<forall>p\<in>set (aos T). particle_bin T p < num_cells T) \<longrightarrow>
            (\<exists>m'. interactAgentsWork T m = Inr m') \<and> (\<exists>m'. interactAgentsNborhood T m = Inr m'))"
proof (intro conjI impI)
  show "prob mtw d i = prob m d i" if "interact_tile binaryInteractionWork T bins m = Inr mtw"
    using work_kernel_frame that i by (rule interact_tile_frame)
  show "prob mtn d i = prob m d i" if "interact_tile binaryInteractionNborhood T bins m = Inr mtn"
    using nborhood_kernel_frame that i by (rule interact_tile_frame)
  show "prob mw d i = prob m d i" if run: "interactAgentsWork T m = Inr mw"
  proof -
    from run obtain b where "interact_tile binaryInteractionWork T b m = Inr mw"
      by (auto simp: interactAgentsWork_def split: sum.splits)
    with work_kernel_frame show ?thesis
      using i by (rule interact_tile_frame)
  qed
  show "prob mn d i = prob m d i" if run: "interactAgentsNborhood T m = Inr mn"
  proof -
    from run obtain b where "interact_tile binaryInteractionNborhood T b m = Inr mn"
      by (auto simp: interactAgentsNborhood_def split: sum.splits)
    with nborhood_kernel_frame show ?thesis
      using i by (rule interact_tile_frame)
  qed
next
  assume cells: "\<forall>p\<in>set (aos T). particle_bin T p < num_cells T"
  then obtain b where b: "makeBins T = Inr b" "bins_valid T b"
    using makeBins_valid by blast
  show "\<exists>m'. interactAgentsWork T m = Inr m'"
    using b(1) interact_tile_total [OF b(2), of binaryInteractionWork m]
    by (simp add: interactAgentsWork_def)
  show "\<exists>m'. interactAgentsNborhood T m = Inr m'"
    using b(1) interact_tile_total [OF b(2), of binaryInteractionNborhood m]
    by (simp add: interactAgentsNborhood_def)
qed

text \<open>
  Agent 3 is immune and agent 4 has been infected for one day, with an incubation length of
  3. Agent 3 shares its cell and its neighbourhood with the infectious agent 0, agent 4
  shares its cell with the infectious agent 7. Their accumulators stay 1, while the
  accumulator of the susceptible agent 1 in the cell of agent 3 changes.
\<close>

theorem notSusceptible_accumulator_unchanged_witness:
  "status ptd_ex 0 3 = Immune
   \<and> status ptd_ex 0 4 = Infected \<and> disease_counter ptd_ex 0 4 < incubation_length lparm_ex
   \<and> (\<exists>m'. interactAgentsWork tile_ex mem_ex = Inr m'
          \<and> prob m' 0 3 = 1 \<and> prob m' 0 4 = 1 \<and> prob m' 0 1 = 19 / 20)
   \<and> (\<exists>m'. interactAgentsNborhood tile_ex mem_ex = Inr m'
          \<and> prob m' 0 3 = 1 \<and> prob m' 0 4 = 1 \<and> prob m' 0 1 = 27 / 40)
   \<and> (\<exists>bins m'. makeBins tile_ex = Inr bins
          \<and> interact_tile binaryInteractionWork tile_ex bins mem_ex = Inr m'
          \<and> prob m' 0 3 = 1 \<and> prob m' 0 4 = 1)
   \<and> (\<exists>bins m'. makeBins tile_ex = Inr bins
          \<and> interact_tile binaryInteractionNborhood tile_ex bins mem_ex = Inr m'
          \<and> prob m' 0 3 = 1 \<and> prob m' 0 4 = 1)"
proof -
  have cells: "\<forall>p\<in>set (aos tile_ex). particle_bin tile_ex p < num_cells tile_ex"
    by (simp add: tile_ex_def)
  have n3: "notSusceptible 3 (tile_data tile_ex) (getDiseaseParameters_d tile_ex 0) 0"
    by (simp add: notSusceptible_def tile_ex_def ptd_ex_simps)
  have n4: "notSusceptible 4 (tile_data tile_ex) (getDiseaseParameters_d tile_ex 0) 0"
    by (simp add: notSusceptible_def tile_ex_def ptd_ex_simps)
  obtain mw mn where mw: "interactAgentsWork tile_ex mem_ex = Inr mw"
    and mn: "interactAgentsNborhood tile_ex mem_ex = Inr mn"
    using notSusceptible_accumulator_unchanged [OF n3, where m = mem_ex] cells by blast
  obtain b where b: "makeBins tile_ex = Inr b"
    "interact_tile binaryInteractionWork tile_ex b mem_ex = Inr mw"
    "interact_tile binaryInteractionNborhood tile_ex b mem_ex = Inr mn"
    using mw mn by (auto simp: interactAgentsWork_def interactAgentsNborhood_def split: sum.splits)
  note f3 = notSusceptible_accumulator_unchanged
    [OF n3, where m = mem_ex and bins = b and mtw = mw and mtn = mn and mw = mw and mn = mn]
  note f4 = notSusceptible_accumulator_unchanged
    [OF n4, where m = mem_ex and bins = b and mtw = mw and mtn = mn and mw = mw and mn = mn]
  have p: "prob mw 0 3 = 1" "prob mw 0 4 = 1" "prob mn 0 3 = 1" "prob mn 0 4 = 1"
    using f3 f4 mw mn b by (simp_all add: mem_ex_def)
  have "case interactAgentsWork tile_ex mem_ex of Inl e \<Rightarrow> False
        | Inr m' \<Rightarrow> prob m' 0 1 = 19 / 20"
    by code_simp
  then have w: "prob mw 0 1 = 19 / 20"
    using mw by simp
  have "case interactAgentsNborhood tile_ex mem_ex of Inl e \<Rightarrow> False
        | Inr m' \<Rightarrow> prob m' 0 1 = 27 / 40"
    by code_simp
  then have n: "prob mn 0 1 = 27 / 40"
    using mn by simp
  have s: "status ptd_ex 0 3 = Immune" "status ptd_ex 0 4 = Infected"
    "disease_counter ptd_ex 0 4 < incubation_length lparm_ex"
    by (simp_all add: ptd_ex_simps)
  from s p w n mw mn b show ?thesis
    by blast
qed

section \<open>The kernel invocations of a pass\<close>

lemma work_kernel_no_call: "records_no_call binaryInteractionWork"
  unfolding records_no_call_def
proof (intro allI)
  fix j i ptd lp s d m
  show "\<exists>evs. trace (binaryInteractionWork j i ptd lp s d m) = trace m @ evs
          \<and> (\<forall>d' j' i'. KernelCall d' j' i' \<notin> set evs)"
  proof (cases "withdrawn ptd j \<noteq> 0 \<or> withdrawn ptd i \<noteq> 0")
    case True
    then have "trace (binaryInteractionWork j i ptd lp s d m) = trace m @ []"
      by (simp add: binaryInteractionWork_def)
    then show ?thesis by (intro exI [of _ "[]"]) simp
  next
    case False
    then obtain f where "trace (binaryInteractionWork j i ptd lp s d m)
        = trace m @ [AtomicMultiply d i f]"
      by (simp add: binaryInteractionWork_def trace_atomic_multiply Let_def)
    then show ?thesis by (intro exI [of _ "[AtomicMultiply d i f]"]) simp
  qed
qed

lemma nborhood_kernel_no_call: "records_no_call binaryInteractionNborhood"
  unfolding records_no_call_def
proof (intro allI)
  fix j i ptd lp s d m
  show "\<exists>evs. trace (binaryInteractionNborhood j i ptd lp s d m) = trace m @ evs
          \<and> (\<forall>d' j' i'. KernelCall d' j' i' \<notin> set evs)"
  proof (cases "withdrawn ptd j \<noteq> 0 \<or> withdrawn ptd i \<noteq> 0")
    case True
    then have "trace (binaryInteractionNborhood j i ptd lp s d m) = trace m @ []"
      by (simp add: binaryInteractionNborhood_def)
    then show ?thesis by (intro exI [of _ "[]"]) simp
  next
    case False
    then obtain f where "trace (binaryInteractionNborhood j i ptd lp s d m)
        = trace m @ [AtomicMultiply d i f]"
      by (simp add: binaryInteractionNborhood_def trace_atomic_multiply Let_def)
    then show ?thesis by (intro exI [of _ "[AtomicMultiply d i f]"]) simp
  qed
qed

lemma trace_extends_call:
  assumes K: "records_no_call K" and m: "trace_extends G tr0 m" and g: "G d j i"
  shows "trace_extends G tr0 (K j i ptd lp s d (m\<lparr>trace := trace m @ [KernelCall d j i]\<rparr>))"
proof -
  obtain evs where evs: "trace m = tr0 @ evs" "\<forall>d j i. KernelCall d j i \<in> set evs \<longrightarrow> G d j i"
    using m unfolding trace_extends_def by blast
  obtain evs' where evs':
      "trace (K j i ptd lp s d (m\<lparr>trace := trace m @ [KernelCall d j i]\<rparr>))
         = trace (m\<lparr>trace := trace m @ [KernelCall d j i]\<rparr>) @ evs'"
      "\<forall>d' j' i'. KernelCall d' j' i' \<notin> set evs'"
    using K unfolding records_no_call_def by blast
  have "trace (K j i ptd lp s d (m\<lparr>trace := trace m @ [KernelCall d j i]\<rparr>))
          = tr0 @ (evs @ KernelCall d j i # evs')"
    using evs(1) evs'(1) by simp
  moreover have "\<forall>d' j' i'. KernelCall d' j' i' \<in> set (evs @ KernelCall d j i # evs') \<longrightarrow> G d' j' i'"
    using evs(2) evs'(2) g by auto
  ultimately show ?thesis
    unfolding trace_extends_def by blast
qed

lemma trace_extends_mono:
  assumes "trace_extends G tr0 m" and "\<And>d j i. G d j i \<Longrightarrow> G' d j i"
  shows "trace_extends G' tr0 m"
  using assms unfolding trace_extends_def by blast

lemma neighbor_step_calls:
  assumes K: "records_no_call K"
    and step: "neighbor_step K T bins d i jj m = Inr m'"
    and m: "trace_extends G tr0 m"
    and g: "permutation bins ! jj < length (aos T) \<Longrightarrow> permutation bins ! jj \<noteq> i \<Longrightarrow>
            isInfectious (permutation bins ! jj) (tile_data T) (getDiseaseParameters_d T d) d \<Longrightarrow>
            G d (permutation bins ! jj) i"
  shows "trace_extends G tr0 m'"
proof -
  let ?j = "permutation bins ! jj"
  note c = neighbor_step_cases [OF step]
  show ?thesis
  proof (cases "?j \<noteq> i \<and> isInfectious ?j (tile_data T) (getDiseaseParameters_d T d) d")
    case True
    then have m': "m' = K ?j i (tile_data T) (getDiseaseParameters_d T d) 1 d
                      (m\<lparr>trace := trace m @ [KernelCall d ?j i]\<rparr>)"
      using c(3) by auto
    have "G d ?j i"
      using g c(2) True by simp
    with K m show ?thesis
      unfolding m' by (rule trace_extends_call)
  next
    case False
    then have "m' = m"
      using c(3) by auto
    with m show ?thesis by simp
  qed
qed

lemma bin_item_bucket:
  assumes K: "records_no_call K"
    and item: "bin_item K T bins d ii m = Inr m'"
    and m: "trace_extends (bucket_pair T bins) tr0 m"
  shows "trace_extends (bucket_pair T bins) tr0 m'"
proof -
  let ?i = "permutation bins ! ii"
  let ?c = "particle_bin T (aos T ! ?i)"
  note c = bin_item_cases [OF item]
  show ?thesis
  proof (cases "notSusceptible ?i (tile_data T) (getDiseaseParameters_d T d) d")
    case True
    with c(3) m show ?thesis by simp
  next
    case False
    then have loop: "for_each [offsets bins ! ?c..<offsets bins ! (?c + 1)]
                  (neighbor_step K T bins d ?i) m = Inr m'"
      by (rule c(4))
    show ?thesis
    proof (rule for_each_invariant [OF loop, where P = "trace_extends (bucket_pair T bins) tr0"])
      show "trace_extends (bucket_pair T bins) tr0 m" by (rule m)
    next
      fix jj m1 m2
      assume jj: "jj \<in> set [offsets bins ! ?c..<offsets bins ! (?c + 1)]"
        and m1: "trace_extends (bucket_pair T bins) tr0 m1"
        and step: "neighbor_step K T bins d ?i jj m1 = Inr m2"
      from jj have r: "offsets bins ! ?c \<le> jj" "jj < offsets bins ! (?c + 1)"
        by simp_all
      have len: "jj < length (permutation bins)"
        by (rule neighbor_step_cases(1) [OF step])
      show "trace_extends (bucket_pair T bins) tr0 m2"
        using K step m1
      proof (rule neighbor_step_calls)
        assume "permutation bins ! jj < length (aos T)" "permutation bins ! jj \<noteq> ?i"
          "isInfectious (permutation bins ! jj) (tile_data T) (getDiseaseParameters_d T d) d"
        with c(2) r len show "bucket_pair T bins d (permutation bins ! jj) ?i"
          unfolding bucket_pair_def by blast
      qed
    qed
  qed
qed

lemma interact_tile_bucket:
  assumes K: "records_no_call K"
    and run: "interact_tile K T bins m = Inr m'"
  shows "trace_extends (bucket_pair T bins) (trace m) m'"
proof -
  from run have loop: "for_each [0..<numDiseases T]
      (\<lambda>d. for_each [0..<numItems bins] (bin_item K T bins d)) m = Inr m'"
    by (simp add: interact_tile_def split: if_splits)
  show ?thesis
  proof (rule for_each_invariant [OF loop, where P = "trace_extends (bucket_pair T bins) (trace m)"])
    show "trace_extends (bucket_pair T bins) (trace m) m"
      by (simp add: trace_extends_def)
  next
    fix d m1 m2
    assume m1: "trace_extends (bucket_pair T bins) (trace m) m1"
      and items: "for_each [0..<numItems bins] (bin_item K T bins d) m1 = Inr m2"
    show "trace_extends (bucket_pair T bins) (trace m) m2"
    proof (rule for_each_invariant [OF items,
          where P = "trace_extends (bucket_pair T bins) (trace m)"])
      show "trace_extends (bucket_pair T bins) (trace m) m1" by (rule m1)
    next
      fix ii m3 m4
      assume m3: "trace_extends (bucket_pair T bins) (trace m) m3"
        and item: "bin_item K T bins d ii m3 = Inr m4"
      show "trace_extends (bucket_pair T bins) (trace m) m4"
        using K item m3 by (rule bin_item_bucket)
    qed
  qed
qed

lemma bucket_pair_eligible:
  assumes valid: "bins_valid T bins" and pair: "bucket_pair T bins d j i"
  shows "eligible_pair T d j i"
proof -
  from pair obtain jj where jj: "offsets bins ! particle_bin T (aos T ! i) \<le> jj"
      "jj < offsets bins ! (particle_bin T (aos T ! i) + 1)" "j = permutation bins ! jj"
    and rest: "j \<noteq> i" "j < length (aos T)" "i < length (aos T)"
      "isInfectious j (tile_data T) (getDiseaseParameters_d T d) d"
    unfolding bucket_pair_def by blast
  have "particle_bin T (aos T ! i) < num_cells T"
    using rest(3) by (rule bins_validD(5) [OF valid])
  then have "particle_bin T (aos T ! (permutation bins ! jj)) = particle_bin T (aos T ! i)"
    using jj(1,2) by (rule bins_validD(8) [OF valid])
  with jj(3) rest show ?thesis
    by (simp add: eligible_pair_def)
qed

lemma interact_tile_calls:
  assumes K: "records_no_call K" and valid: "bins_valid T bins"
    and run: "interact_tile K T bins m = Inr m'"
  shows "trace_extends (eligible_pair T) (trace m) m'"
  using interact_tile_bucket [OF K run] bucket_pair_eligible [OF valid]
  by (rule trace_extends_mono)

text \<open>
  C5. Every kernel invocation of an interaction pass, for the disease \<open>d\<close> with the source
  \<open>j\<close> and the target \<open>i\<close>, has \<open>j \<noteq> i\<close>, both agents in the patch, \<open>j\<close> infectious
  for \<open>d\<close>, and \<open>j\<close> in the bucket of the cell of \<open>i\<close>: for the body of the pass on any
  index \<open>bins\<close>, \<open>j\<close> is an entry of the permutation within the offset range of the cell
  that the binner gives \<open>i\<close>; for the two passes \<open>interactAgentsWork\<close> and
  \<open>interactAgentsNborhood\<close>, which make the index current first, the binner gives \<open>j\<close> and
  \<open>i\<close> the same flat cell id. On a patch whose agents all have a cell of the patch both
  passes run to completion.
\<close>

theorem kernel_invocations_eligible:
  "(interact_tile binaryInteractionWork T bins m = Inr mtw \<longrightarrow>
      (\<exists>evs. trace mtw = trace m @ evs
         \<and> (\<forall>d j i. KernelCall d j i \<in> set evs \<longrightarrow>
               j \<noteq> i \<and> j < length (aos T) \<and> i < length (aos T)
               \<and> (\<exists>jj. offsets bins ! particle_bin T (aos T ! i) \<le> jj
                      \<and> jj < offsets bins ! (particle_bin T (aos T ! i) + 1)
                      \<and> jj < length (permutation bins) \<and> j = permutation bins ! jj)
               \<and> isInfectious j (tile_data T) (getDiseaseParameters_d T d) d)))
   \<and> (interact_tile binaryInteractionNborhood T bins m = Inr mtn \<longrightarrow>
      (\<exists>evs. trace mtn = trace m @ evs
         \<and> (\<forall>d j i. KernelCall d j i \<in> set evs \<longrightarrow>
               j \<noteq> i \<and> j < length (aos T) \<and> i < length (aos T)
               \<and> (\<exists>jj. offsets bins ! particle_bin T (aos T ! i) \<le> jj
                      \<and> jj < offsets bins ! (particle_bin T (aos T ! i) + 1)
                      \<and> jj < length (permutation bins) \<and> j = permutation bins ! jj)
               \<and> isInfectious j (tile_data T) (getDiseaseParameters_d T d) d)))
   \<and> (interactAgentsWork T m = Inr mw \<longrightarrow>
      (\<exists>evs. trace mw = trace m @ evs
         \<and> (\<forall>d j i. KernelCall d j i \<in> set evs \<longrightarrow>
               j \<noteq> i \<and> j < length (aos T) \<and> i < length (aos T)
               \<and> particle_bin T (aos T ! j) = particle_bin T (aos T ! i)
               \<and> isInfectious j (tile_data T) (getDiseaseParameters_d T d) d)))
   \<and> (interactAgentsNborhood T m = Inr mn \<longrightarrow>
      (\<exists>evs. trace mn = trace m @ evs
         \<and> (\<forall>d j i. KernelCall d j i \<in> set evs \<longrightarrow>
               j \<noteq> i \<and> j < length (aos T) \<and> i < length (aos T)
               \<and> particle_bin T (aos T ! j) = particle_bin T (aos T ! i)
               \<and> isInfectious j (tile_data T) (getDiseaseParameters_d T d) d)))
   \<and> ((\<forall>p\<in>set (aos T). particle_bin T p < num_cells T) \<longrightarrow>
        (\<exists>m'. interactAgentsWork T m = Inr m') \<and> (\<exists>m'. interactAgentsNborhood T m = Inr m'))"
proof (intro conjI impI)
  assume run: "interact_tile binaryInteractionWork T bins m = Inr mtw"
  have "trace_extends (bucket_pair T bins) (trace m) mtw"
    using work_kernel_no_call run by (rule interact_tile_bucket)
  then show "\<exists>evs. trace mtw = trace m @ evs
         \<and> (\<forall>d j i. KernelCall d j i \<in> set evs \<longrightarrow>
               j \<noteq> i \<and> j < length (aos T) \<and> i < length (aos T)
               \<and> (\<exists>jj. offsets bins ! particle_bin T (aos T ! i) \<le> jj
                      \<and> jj < offsets bins ! (particle_bin T (aos T ! i) + 1)
                      \<and> jj < length (permutation bins) \<and> j = permutation bins ! jj)
               \<and> isInfectious j (tile_data T) (getDiseaseParameters_d T d) d)"
    unfolding trace_extends_def bucket_pair_def by simp
next
  assume run: "interact_tile binaryInteractionNborhood T bins m = Inr mtn"
  have "trace_extends (bucket_pair T bins) (trace m) mtn"
    using nborhood_kernel_no_call run by (rule interact_tile_bucket)
  then show "\<exists>evs. trace mtn = trace m @ evs
         \<and> (\<forall>d j i. KernelCall d j i \<in> set evs \<longrightarrow>
               j \<noteq> i \<and> j < length (aos T) \<and> i < length (aos T)
               \<and> (\<exists>jj. offsets bins ! particle_bin T (aos T ! i) \<le> jj
                      \<and> jj < offsets bins ! (particle_bin T (aos T ! i) + 1)
                      \<and> jj < length (permutation bins) \<and> j = permutation bins ! jj)
               \<and> isInfectious j (tile_data T) (getDiseaseParameters_d T d) d)"
    unfolding trace_extends_def bucket_pair_def by simp
next
  assume run: "interactAgentsWork T m = Inr mw"
  then obtain b where b: "makeBins T = Inr b" "interact_tile binaryInteractionWork T b m = Inr mw"
    by (auto simp: interactAgentsWork_def split: sum.splits)
  have "trace_extends (eligible_pair T) (trace m) mw"
    using work_kernel_no_call makeBins_Inr_valid [OF b(1)] b(2) by (rule interact_tile_calls)
  then show "\<exists>evs. trace mw = trace m @ evs
         \<and> (\<forall>d j i. KernelCall d j i \<in> set evs \<longrightarrow>
               j \<noteq> i \<and> j < length (aos T) \<and> i < length (aos T)
               \<and> particle_bin T (aos T ! j) = particle_bin T (aos T ! i)
               \<and> isInfectious j (tile_data T) (getDiseaseParameters_d T d) d)"
    unfolding trace_extends_def eligible_pair_def by simp
next
  assume run: "interactAgentsNborhood T m = Inr mn"
  then obtain b where b: "makeBins T = Inr b" "interact_tile binaryInteractionNborhood T b m = Inr mn"
    by (auto simp: interactAgentsNborhood_def split: sum.splits)
  have "trace_extends (eligible_pair T) (trace m) mn"
    using nborhood_kernel_no_call makeBins_Inr_valid [OF b(1)] b(2) by (rule interact_tile_calls)
  then show "\<exists>evs. trace mn = trace m @ evs
         \<and> (\<forall>d j i. KernelCall d j i \<in> set evs \<longrightarrow>
               j \<noteq> i \<and> j < length (aos T) \<and> i < length (aos T)
               \<and> particle_bin T (aos T ! j) = particle_bin T (aos T ! i)
               \<and> isInfectious j (tile_data T) (getDiseaseParameters_d T d) d)"
    unfolding trace_extends_def eligible_pair_def by simp
next
  assume cells: "\<forall>p\<in>set (aos T). particle_bin T p < num_cells T"
  then obtain b where b: "makeBins T = Inr b" "bins_valid T b"
    using makeBins_valid by blast
  show "\<exists>m'. interactAgentsWork T m = Inr m'"
    using b(1) interact_tile_total [OF b(2), of binaryInteractionWork m]
    by (simp add: interactAgentsWork_def)
  show "\<exists>m'. interactAgentsNborhood T m = Inr m'"
    using b(1) interact_tile_total [OF b(2), of binaryInteractionNborhood m]
    by (simp add: interactAgentsNborhood_def)
qed

text \<open>
  The two passes on the example patch. In cell 0 the sources are agents 0 and 6, in cell 1
  the source is agent 7; the agents 3 and 4 are skipped as targets; agent 8 is alone in its
  cell.
\<close>

theorem kernel_invocations_eligible_witness:
  "(\<exists>m'. interactAgentsWork tile_ex mem_ex = Inr m'
      \<and> trace m' =
          [KernelCall 0 6 0, KernelCall 0 0 1, AtomicMultiply 0 1 (19 / 20),
           KernelCall 0 6 1, KernelCall 0 0 2, AtomicMultiply 0 2 1,
           KernelCall 0 6 2, KernelCall 0 0 6, KernelCall 0 7 5, AtomicMultiply 0 5 1])
   \<and> (\<exists>m'. interactAgentsNborhood tile_ex mem_ex = Inr m'
      \<and> trace m' =
          [KernelCall 0 6 0, KernelCall 0 0 1, AtomicMultiply 0 1 (27 / 40),
           KernelCall 0 6 1, KernelCall 0 0 2, AtomicMultiply 0 2 (9 / 10),
           KernelCall 0 6 2, KernelCall 0 0 6, KernelCall 0 7 5, AtomicMultiply 0 5 (2 / 5)])"
proof -
  have cells: "\<forall>p\<in>set (aos tile_ex). particle_bin tile_ex p < num_cells tile_ex"
    by (simp add: tile_ex_def)
  have w: "case interactAgentsWork tile_ex mem_ex of Inl e \<Rightarrow> False
           | Inr m' \<Rightarrow> trace m' =
          [KernelCall 0 6 0, KernelCall 0 0 1, AtomicMultiply 0 1 (19 / 20),
           KernelCall 0 6 1, KernelCall 0 0 2, AtomicMultiply 0 2 1,
           KernelCall 0 6 2, KernelCall 0 0 6, KernelCall 0 7 5, AtomicMultiply 0 5 1]"
    by code_simp
  have n: "case interactAgentsNborhood tile_ex mem_ex of Inl e \<Rightarrow> False
           | Inr m' \<Rightarrow> trace m' =
          [KernelCall 0 6 0, KernelCall 0 0 1, AtomicMultiply 0 1 (27 / 40),
           KernelCall 0 6 1, KernelCall 0 0 2, AtomicMultiply 0 2 (9 / 10),
           KernelCall 0 6 2, KernelCall 0 0 6, KernelCall 0 7 5, AtomicMultiply 0 5 (2 / 5)]"
    by code_simp
  have "(\<exists>m'. interactAgentsWork tile_ex mem_ex = Inr m')
      \<and> (\<exists>m'. interactAgentsNborhood tile_ex mem_ex = Inr m')"
    by (rule kernel_invocations_eligible [where T = tile_ex and m = mem_ex,
          THEN conjunct2, THEN conjunct2, THEN conjunct2, THEN conjunct2, THEN mp, OF cells])
  then obtain mw mn where mw: "interactAgentsWork tile_ex mem_ex = Inr mw"
    and mn: "interactAgentsNborhood tile_ex mem_ex = Inr mn"
    by blast
  obtain b where b: "makeBins tile_ex = Inr b"
    "interact_tile binaryInteractionWork tile_ex b mem_ex = Inr mw"
    "interact_tile binaryInteractionNborhood tile_ex b mem_ex = Inr mn"
    using mw mn by (auto simp: interactAgentsWork_def interactAgentsNborhood_def split: sum.splits)
  note calls = kernel_invocations_eligible
    [where T = tile_ex and m = mem_ex and bins = b and mtw = mw and mtn = mn
       and mw = mw and mn = mn]
  from calls b mw mn w n show ?thesis
    by simp
qed

section \<open>The order of the updates of one accumulator\<close>














end
